theory Spec2Isabelle
  imports Main "HOL-Library.Sublist"
begin

section \<open>JavaScript strings\<close>

text \<open>
  The compiler of jsxLoader works on JavaScript strings. A string is modelled as a list of
  characters with codes 0 to 255; an index is a position in that list. Reading a string out of
  range gives \<open>undefined\<close> in JavaScript, which is \<open>None\<close> here.
\<close>

definition charAt :: "string \<Rightarrow> int \<Rightarrow> char option" where
  "charAt s i = (if 0 \<le> i \<and> i < int (length s) then Some (s ! nat i) else None)"

text \<open>\<open>s.substring(a, b)\<close> for \<open>a \<le> b\<close>; both ends are clamped to the string.\<close>

definition substring :: "string \<Rightarrow> int \<Rightarrow> int \<Rightarrow> string" where
  "substring s a b = drop (nat a) (take (nat b) s)"

text \<open>
  White space as \<open>String.prototype.trim\<close> and the regular expression class \<open>\s\<close> see it,
  among the characters up to 255: tab, line feed, vertical tab, form feed, carriage return,
  space and the no-break space.
\<close>

definition isSpace :: "char \<Rightarrow> bool" where
  "isSpace c = (c \<in> set [CHR 0x09, CHR 0x0A, CHR 0x0B, CHR 0x0C, CHR 0x0D, CHR 0x20, CHR 0xA0])"

definition trimStart :: "string \<Rightarrow> string" where
  "trimStart s = dropWhile isSpace s"

definition trimEnd :: "string \<Rightarrow> string" where
  "trimEnd s = rev (dropWhile isSpace (rev s))"

definition trim :: "string \<Rightarrow> string" where
  "trim s = trimEnd (trimStart s)"

text \<open>\<open>s.split("\n")\<close>: the lines of a string; the result is never empty.\<close>

fun splitLines :: "string \<Rightarrow> string list" where
  "splitLines [] = [[]]"
| "splitLines (c # cs) =
     (if c = CHR 0x0A then [] # splitLines cs
      else (c # hd (splitLines cs)) # tl (splitLines cs))"

text \<open>The decimal text of a number, as string concatenation with a number produces it.\<close>

definition digitChar :: "nat \<Rightarrow> char" where
  "digitChar d = ''0123456789'' ! d"

function showNat :: "nat \<Rightarrow> string" where
  "showNat n = (if n < 10 then [digitChar n] else showNat (n div 10) @ [digitChar (n mod 10)])"
  by pat_completeness auto
termination
  by (relation "measure id") auto

declare showNat.simps [simp del]

definition showInt :: "int \<Rightarrow> string" where
  "showInt i = (if i < 0 then CHR ''-'' # showNat (nat (- i)) else showNat (nat i))"

section \<open>Positions in error messages\<close>

text \<open>
  \<open>getTextPosition(input, pos)\<close>. The position is a number, or \<open>null\<close> for a token without
  one; \<open>substring(0, null)\<close> is the empty string.
\<close>

definition getTextPosition :: "string \<Rightarrow> int option \<Rightarrow> string" where
  "getTextPosition input pos =
     (let lines = splitLines (substring input 0 (case pos of None \<Rightarrow> 0 | Some p \<Rightarrow> p));
          lineCount = length lines;
          line = lines ! (lineCount - 1)
      in '' at Line #: '' @ showNat lineCount @ '', Column #: '' @ showInt (int (length line) - 1)
           @ '', Line: '' @ trim line)"

section \<open>Telling an element from a less-than expression\<close>

text \<open>
  The character classes of the regular expressions the compiler tests single characters with.
  \<open>RegExp.test\<close> converts its argument to a string first, so a test of \<open>null\<close> or
  \<open>undefined\<close> (a read past the end of the input, \<open>None\<close> here) is a test of the text
  \<open>null\<close> or \<open>undefined\<close>; every class below contains the letters, so such a test succeeds.
\<close>

definition isAlpha :: "char \<Rightarrow> bool" where
  "isAlpha c = (let n = (of_char c :: nat) in (65 \<le> n \<and> n \<le> 90) \<or> (97 \<le> n \<and> n \<le> 122))"

definition isDigit :: "char \<Rightarrow> bool" where
  "isDigit c = (let n = (of_char c :: nat) in 48 \<le> n \<and> n \<le> 57)"

definition reTest :: "(char \<Rightarrow> bool) \<Rightarrow> char option \<Rightarrow> bool" where
  "reTest cls x = (case x of None \<Rightarrow> True | Some c \<Rightarrow> cls c)"

text \<open>\<open>/[a-zA-Z>]/\<close>, \<open>/[a-zA-Z>/]/\<close> and \<open>/[a-zA-Z0-9_/]/\<close>.\<close>

definition reElementStart :: "char \<Rightarrow> bool" where
  "reElementStart c = (isAlpha c \<or> c = CHR ''>'')"

definition reElementStartOrClose :: "char \<Rightarrow> bool" where
  "reElementStartOrClose c = (isAlpha c \<or> c = CHR ''>'' \<or> c = CHR ''/'')"

definition reNameChar :: "char \<Rightarrow> bool" where
  "reNameChar c = (isAlpha c \<or> isDigit c \<or> c = CHR ''_'' \<or> c = CHR ''/'')"

text \<open>
  \<open>isExpression(input, current, length)\<close>: the loop over \<open>pos\<close>, with \<open>foundName\<close>. It is
  called at a \<open>&lt;\<close> and answers whether the text that follows looks like a less-than
  expression.
\<close>

function isExpression_loop :: "string \<Rightarrow> nat \<Rightarrow> nat \<Rightarrow> bool \<Rightarrow> bool" where
  "isExpression_loop input pos len foundName =
     (if pos < len then
        (let nextChar = charAt input (int pos) in
         if reTest reNameChar nextChar then
           (if foundName then False else isExpression_loop input (pos + 1) len foundName)
         else if nextChar = Some CHR ''>'' then False
         else if nextChar = Some CHR '' '' then isExpression_loop input (pos + 1) len True
         else if nextChar = Some CHR '')'' \<or> nextChar = Some CHR ''&'' \<or> nextChar = Some CHR ''|''
                 \<or> nextChar = Some CHR ''?'' \<or> nextChar = Some CHR '';'' then True
         else isExpression_loop input (pos + 1) len foundName)
      else False)"
  by pat_completeness auto
termination
  by (relation "measure (\<lambda>(input, pos, len, foundName). len - pos)") auto

declare isExpression_loop.simps [simp del]

definition isExpression :: "string \<Rightarrow> nat \<Rightarrow> nat \<Rightarrow> bool" where
  "isExpression input current len = isExpression_loop input (current + 2) len False"

section \<open>Compiler step 1: removing comments\<close>

record rc_state =
  inCommentReact :: bool
  inCommentSingleLine :: bool
  inCommentMultiLine :: bool
  inStringSingleQuote :: bool
  inStringDoubleQuote :: bool
  inStringMultiLine :: bool
  elementCount :: int
  jsCount :: int

definition rc_init :: rc_state where
  "rc_init = \<lparr> inCommentReact = False, inCommentSingleLine = False, inCommentMultiLine = False,
      inStringSingleQuote = False, inStringDoubleQuote = False, inStringMultiLine = False,
      elementCount = 0, jsCount = 0 \<rparr>"

text \<open>
  \<open>newInput = new Array(length)\<close> is an array of \<open>length\<close> holes. An assignment inside the
  array fills a hole; one past its end would lengthen it. \<open>join("")\<close> skips the holes.
\<close>

definition arraySet :: "char option list \<Rightarrow> nat \<Rightarrow> char \<Rightarrow> char option list" where
  "arraySet a i c =
     (if i < length a then a[i := Some c] else a @ replicate (i - length a) None @ [Some c])"

definition arrayJoin :: "char option list \<Rightarrow> string" where
  "arrayJoin a = concat (map (\<lambda>x. case x of None \<Rightarrow> [] | Some c \<Rightarrow> [c]) a)"

definition rc_peekNext :: "string \<Rightarrow> nat \<Rightarrow> char option" where
  "rc_peekNext input current =
     (if current + 1 < length input then Some (input ! (current + 1)) else None)"

definition rc_peekNext2 :: "string \<Rightarrow> nat \<Rightarrow> string option" where
  "rc_peekNext2 input current =
     (if current + 2 < length input then Some [input ! (current + 1), input ! (current + 2)]
      else None)"

text \<open>\<open>input[current - 1]\<close>, which is \<open>undefined\<close> at the start of the input.\<close>

definition prevChar :: "string \<Rightarrow> nat \<Rightarrow> char option" where
  "prevChar input current = (if current = 0 then None else charAt input (int current - 1))"

text \<open>
  The body of the loop of \<open>removeComments\<close>, up to the assignment \<open>newInput[current] = char\<close>
  that ends every round: it gives the state, \<open>current\<close>, \<open>char\<close> and \<open>newInput\<close> at that
  point.
\<close>

definition rc_body ::
  "string \<Rightarrow> rc_state \<Rightarrow> nat \<Rightarrow> char option list \<Rightarrow> rc_state \<times> nat \<times> char \<times> char option list" where
  "rc_body input st current newInput =
     (let ch = input ! current in
      if inCommentReact st then
        (if ch = CHR ''*'' \<and> rc_peekNext2 input current = Some ''/}'' then
           (st\<lparr>inCommentReact := False\<rparr>, current + 2, CHR '' '',
            arraySet (arraySet newInput current CHR '' '') (current + 1) CHR '' '')
         else if ch \<noteq> CHR 0x0A then (st, current, CHR '' '', newInput)
         else (st, current, ch, newInput))
      else if inCommentSingleLine st then
        (if ch = CHR 0x0A then (st\<lparr>inCommentSingleLine := False\<rparr>, current, ch, newInput)
         else (st, current, CHR '' '', newInput))
      else if inCommentMultiLine st then
        (if ch = CHR ''*'' \<and> rc_peekNext input current = Some CHR ''/'' then
           (st\<lparr>inCommentMultiLine := False\<rparr>, current + 1, CHR '' '',
            arraySet newInput current CHR '' '')
         else if ch \<noteq> CHR 0x0A then (st, current, CHR '' '', newInput)
         else (st, current, ch, newInput))
      else if inStringDoubleQuote st then
        (if ch = CHR 0x22 \<and> prevChar input current \<noteq> Some CHR 0x5C then
           (st\<lparr>inStringDoubleQuote := False\<rparr>, current, ch, newInput)
         else (st, current, ch, newInput))
      else if inStringSingleQuote st then
        (if ch = CHR 0x27 \<and> prevChar input current \<noteq> Some CHR 0x5C then
           (st\<lparr>inStringSingleQuote := False\<rparr>, current, ch, newInput)
         else (st, current, ch, newInput))
      else if inStringMultiLine st then
        (if ch = CHR 0x60 then (st\<lparr>inStringMultiLine := False\<rparr>, current, ch, newInput)
         else (st, current, ch, newInput))
      else if ch = CHR ''{'' then
        (if rc_peekNext2 input current = Some ''/*'' then
           (st\<lparr>inCommentReact := True\<rparr>, current + 2, CHR '' '',
            arraySet (arraySet newInput current CHR '' '') (current + 1) CHR '' '')
         else if elementCount st > 0 then (st\<lparr>jsCount := jsCount st + 1\<rparr>, current, ch, newInput)
         else (st, current, ch, newInput))
      else if ch = CHR ''}'' then
        (if elementCount st > 0 \<and> jsCount st > 0 then
           (st\<lparr>jsCount := jsCount st - 1\<rparr>, current, ch, newInput)
         else (st, current, ch, newInput))
      else if ch = CHR ''/'' then
        (if elementCount st = 0 \<or> jsCount st > 0 then
           (let next = rc_peekNext input current;
                st1 = st\<lparr>inCommentSingleLine := (next = Some CHR ''/'')\<rparr>;
                st2 = (if \<not> inCommentSingleLine st1
                       then st1\<lparr>inCommentMultiLine := (next = Some CHR ''*'')\<rparr> else st1)
            in if inCommentSingleLine st2 \<or> inCommentMultiLine st2 then
                 (st2, current + 1, CHR '' '', arraySet newInput current CHR '' '')
               else (st2, current, ch, newInput))
         else (st, current, ch, newInput))
      else if ch = CHR 0x22 then (st\<lparr>inStringDoubleQuote := True\<rparr>, current, ch, newInput)
      else if ch = CHR 0x27 then (st\<lparr>inStringSingleQuote := True\<rparr>, current, ch, newInput)
      else if ch = CHR 0x60 then (st\<lparr>inStringMultiLine := True\<rparr>, current, ch, newInput)
      else if ch = CHR ''<'' then
        (let charNext = rc_peekNext input current in
         if reTest reElementStart charNext \<and> \<not> isExpression input current (length input) then
           (st\<lparr>elementCount := elementCount st + 1\<rparr>, current, ch, newInput)
         else if charNext = Some CHR ''/'' then
           (st\<lparr>elementCount := elementCount st - 1\<rparr>, current, ch, newInput)
         else (st, current, ch, newInput))
      else if ch = CHR ''>'' then
        (if prevChar input current = Some CHR ''/'' \<and> elementCount st > 0 then
           (st\<lparr>elementCount := elementCount st - 1\<rparr>, current, ch, newInput)
         else (st, current, ch, newInput))
      else (st, current, ch, newInput))"

lemma rc_body_current:
  "rc_body input st current newInput = (st', current', ch, newInput') \<Longrightarrow> current \<le> current'"
  unfolding rc_body_def Let_def by (auto split: if_splits)

lemma rc_body_bound:
  "rc_body input st current newInput = (st', current', ch, newInput') \<Longrightarrow>
   current < length input \<Longrightarrow> current' < length input"
  unfolding rc_body_def Let_def rc_peekNext_def rc_peekNext2_def by (auto split: if_splits)

function rc_loop :: "string \<Rightarrow> rc_state \<Rightarrow> nat \<Rightarrow> char option list \<Rightarrow> char option list" where
  "rc_loop input st current newInput =
     (if current < length input then
        (case rc_body input st current newInput of
           (st', current', ch, newInput') \<Rightarrow>
             rc_loop input st' (current' + 1) (arraySet newInput' current' ch))
      else newInput)"
  by pat_completeness auto
termination
  apply (relation "measure (\<lambda>(input, st, current, newInput). length input - current)")
   apply simp
  apply clarsimp
  subgoal for input st current newInput st' current' ch newInput'
    using rc_body_current [of input st current newInput st' current' ch newInput'] by simp
  done

declare rc_loop.simps [simp del]

definition removeComments :: "string \<Rightarrow> string" where
  "removeComments input =
     arrayJoin (rc_loop input rc_init 0 (replicate (length input) None))"

lemma rc_loop_code [code]:
  "rc_loop input st current newInput =
     (if current < length input then
        (let r = rc_body input st current newInput in
          rc_loop input (fst r) (fst (snd r) + 1)
            (arraySet (snd (snd (snd r))) (fst (snd r)) (fst (snd (snd r)))))
      else newInput)"
  by (subst rc_loop.simps) (simp add: case_prod_beta Let_def)

text \<open>
  The comment regions that \<open>removeComments\<close> recognises, as a list of marks, one for each
  position of the input. The marks come from the same scan: a position is marked when the
  round of the loop that handles it starts or ends with one of the three comment flags set,
  so a region runs from the first character of the opening \<open>//\<close>, \<open>/*\<close> or \<open>{/*\<close> to the
  last character of the closing \<open>*/\<close> or \<open>*/}\<close>, or to the line feed that ends a line
  comment.
\<close>

definition rc_inComment :: "rc_state \<Rightarrow> bool" where
  "rc_inComment st = (inCommentReact st \<or> inCommentSingleLine st \<or> inCommentMultiLine st)"

function rc_regions :: "string \<Rightarrow> rc_state \<Rightarrow> nat \<Rightarrow> char option list \<Rightarrow> bool list" where
  "rc_regions input st current newInput =
     (if current < length input then
        (case rc_body input st current newInput of
           (st', current', ch, newInput') \<Rightarrow>
             replicate (current' - current + 1) (rc_inComment st \<or> rc_inComment st')
               @ rc_regions input st' (current' + 1) (arraySet newInput' current' ch))
      else [])"
  by pat_completeness auto
termination
  apply (relation "measure (\<lambda>(input, st, current, newInput). length input - current)")
   apply simp
  apply clarsimp
  subgoal for input st current newInput st' current' ch newInput'
    using rc_body_current [of input st current newInput st' current' ch newInput'] by simp
  done

declare rc_regions.simps [simp del]

lemma rc_regions_code [code]:
  "rc_regions input st current newInput =
     (if current < length input then
        (let r = rc_body input st current newInput in
          replicate (fst (snd r) - current + 1) (rc_inComment st \<or> rc_inComment (fst r))
            @ rc_regions input (fst r) (fst (snd r) + 1)
               (arraySet (snd (snd (snd r))) (fst (snd r)) (fst (snd (snd r)))))
      else [])"
  by (subst rc_regions.simps) (simp add: case_prod_beta Let_def)

definition commentRegion :: "string \<Rightarrow> bool list" where
  "commentRegion input = rc_regions input rc_init 0 (replicate (length input) None)"

text \<open>What a marked character becomes: a space, unless it is a line feed.\<close>

definition blank :: "bool \<Rightarrow> char \<Rightarrow> char" where
  "blank m c = (if m \<and> c \<noteq> CHR 0x0A then CHR '' '' else c)"

section \<open>Tokens and errors\<close>

datatype tokenType =
    JS | E_START | E_END | E_PROP | E_VALUE | E_CHILD_TEXT | E_CHILD_JS
  | E_CHILD_WHITESPACE | E_CHILD_JS_START | E_CHILD_JS_END

text \<open>The enum values are overwritten with their keys, which is what error messages print.\<close>

fun tokenTypeName :: "tokenType \<Rightarrow> string" where
  "tokenTypeName JS = ''js''"
| "tokenTypeName E_START = ''e_start''"
| "tokenTypeName E_END = ''e_end''"
| "tokenTypeName E_PROP = ''e_prop''"
| "tokenTypeName E_VALUE = ''e_value''"
| "tokenTypeName E_CHILD_TEXT = ''e_child_text''"
| "tokenTypeName E_CHILD_JS = ''e_child_js''"
| "tokenTypeName E_CHILD_WHITESPACE = ''e_child_whitespace''"
| "tokenTypeName E_CHILD_JS_START = ''e_child_js_start''"
| "tokenTypeName E_CHILD_JS_END = ''e_child_js_end''"

text \<open>
  A token \<open>{ type, value, pos }\<close>; \<open>pos\<close> is a number or \<open>null\<close>. The parser later adds
  \<open>index\<close>, which is \<open>undefined\<close> (\<open>None\<close>) until then.
\<close>

record token =
  tok_type :: tokenType
  tok_value :: string
  tok_pos :: "int option"
  tok_index :: "nat option"

definition mkToken :: "tokenType \<Rightarrow> string \<Rightarrow> int option \<Rightarrow> token" where
  "mkToken ty v p = \<lparr> tok_type = ty, tok_value = v, tok_pos = p, tok_index = None \<rparr>"

text \<open>
  What the compiler throws: \<open>new Error(message)\<close> and \<open>new TypeError(message)\<close>. A read of a
  property of \<open>null\<close> or \<open>undefined\<close> is a \<open>TypeError\<close> of the engine; its text here names the
  property. \<open>RangeError\<close> is the error of \<open>String.prototype.repeat\<close> for a negative count; its
  message is the engine's. \<open>Diverged\<close> is not an error of the program: it is the answer of a
  bounded recursion of this model whose bound is used up.
\<close>

datatype error = Error string | TypeError string | RangeError | Diverged

section \<open>Compiler step 2: the tokenizer\<close>

text \<open>\<open>JSON.stringify\<close> of a string, for characters up to 255.\<close>

definition hexDigit :: "nat \<Rightarrow> char" where
  "hexDigit d = ''0123456789abcdef'' ! d"

definition jsonEscape :: "char \<Rightarrow> string" where
  "jsonEscape c =
     (if c = CHR 0x22 then [CHR 0x5C, CHR 0x22]
      else if c = CHR 0x5C then [CHR 0x5C, CHR 0x5C]
      else if c = CHR 0x08 then [CHR 0x5C, CHR ''b'']
      else if c = CHR 0x0C then [CHR 0x5C, CHR ''f'']
      else if c = CHR 0x0A then [CHR 0x5C, CHR ''n'']
      else if c = CHR 0x0D then [CHR 0x5C, CHR ''r'']
      else if c = CHR 0x09 then [CHR 0x5C, CHR ''t'']
      else if (of_char c :: nat) < 32 then
        [CHR 0x5C, CHR ''u'', CHR ''0'', CHR ''0'',
         hexDigit ((of_char c :: nat) div 16), hexDigit ((of_char c :: nat) mod 16)]
      else [c])"

definition jsonStringify :: "string \<Rightarrow> string" where
  "jsonStringify s = CHR 0x22 # concat (map jsonEscape s) @ [CHR 0x22]"

text \<open>
  The variables of \<open>tokenizer\<close> that its inner functions share: \<open>current\<close>, \<open>tokens\<close> and
  \<open>char\<close> (a string of one character, or the empty string), and the two safety counters.
  \<open>input\<close>, \<open>length\<close>, \<open>maxRecursiveCalls\<close> and, within one element, \<open>pos\<close> do not change.
\<close>

record lexer =
  t_current :: int
  t_tokens :: "token list"
  t_char :: string

record counters =
  loopCount :: int
  callCount :: int

definition pushToken :: "lexer \<Rightarrow> tokenType \<Rightarrow> string \<Rightarrow> int option \<Rightarrow> lexer" where
  "pushToken g ty v p = g\<lparr>t_tokens := t_tokens g @ [mkToken ty v p]\<rparr>"

text \<open>The state kept for each open element, and the state of one call of \<open>tokenizeElement\<close>.\<close>

record elementState1 =
  inJs :: bool
  jsBracketCount :: int
  closeJs :: bool
  inPropJs :: bool
  jsPropBracketCount :: int

record el_state =
  svalue :: string
  elementStack :: int
  elementState :: "elementState1 list"
  currentElementState :: "nat option"
  inElement :: bool
  hasElementName :: bool
  elementClosed :: bool
  closeElement :: bool
  closingElement :: bool
  fatalError :: bool
  errorMessage :: "string option"
  addElementEnd :: bool
  breakLoop :: bool
  addChild :: bool
  addChar :: bool
  hasProp :: bool
  inValue :: bool
  inPropString :: bool
  propStringChar :: "char option"
  jsWithElement :: bool

text \<open>
  \<open>currentElementState\<close> is \<open>null\<close> or one of the objects of the array \<open>elementState\<close>; it is
  kept as the index of that object, so that an assignment through it changes the array.
\<close>

definition ces :: "el_state \<Rightarrow> elementState1 option" where
  "ces st = (case currentElementState st of None \<Rightarrow> None
             | Some i \<Rightarrow> if i < length (elementState st) then Some (elementState st ! i) else None)"

definition cesUpdate :: "(elementState1 \<Rightarrow> elementState1) \<Rightarrow> el_state \<Rightarrow> el_state" where
  "cesUpdate f st = (case currentElementState st of None \<Rightarrow> st
     | Some i \<Rightarrow> st\<lparr>elementState := (elementState st)[i := f (elementState st ! i)]\<rparr>)"

text \<open>
  \<open>elementStack--; elementState.pop(); currentElementState = elementStack === 0 ? null :
  elementState[elementStack - 1]\<close>; an index outside the array reads \<open>undefined\<close>.
\<close>

definition popElement :: "el_state \<Rightarrow> el_state" where
  "popElement st =
     (let n = elementStack st - 1; arr = butlast (elementState st)
      in st\<lparr>elementStack := n, elementState := arr,
              currentElementState :=
                (if n = 0 then None
                 else if 0 \<le> n - 1 \<and> n - 1 < int (length arr) then Some (nat (n - 1)) else None)\<rparr>)"

definition newElementState :: elementState1 where
  "newElementState = \<lparr> inJs = False, jsBracketCount = 0, closeJs = False, inPropJs = False,
      jsPropBracketCount = 0 \<rparr>"

definition pushElement :: "el_state \<Rightarrow> el_state" where
  "pushElement st =
     st\<lparr>elementStack := elementStack st + 1,
        elementState := elementState st @ [newElementState],
        currentElementState := Some (length (elementState st))\<rparr>"

definition peekCurrent :: "string \<Rightarrow> lexer \<Rightarrow> char option" where
  "peekCurrent input g =
     (if t_current g < int (length input) then charAt input (t_current g) else None)"

definition peekNext :: "string \<Rightarrow> lexer \<Rightarrow> char option" where
  "peekNext input g =
     (if t_current g < int (length input) then charAt input (t_current g + 1) else None)"


text \<open>\<open>nextElementPos()\<close>: the position of the next element from \<open>current\<close> on, or \<open>null\<close>.\<close>

record ne_state =
  n_inStringSingleQuote :: bool
  n_inStringDoubleQuote :: bool
  n_inStringMultiLine :: bool

function nextElementPos_loop :: "string \<Rightarrow> nat \<Rightarrow> ne_state \<Rightarrow> nat option" where
  "nextElementPos_loop input c st =
     (if c + 1 < length input then
        (if n_inStringDoubleQuote st then
           (if input ! c = CHR 0x22 \<and> prevChar input c \<noteq> Some CHR 0x5C
            then nextElementPos_loop input (c + 1) (st\<lparr>n_inStringDoubleQuote := False\<rparr>)
            else nextElementPos_loop input (c + 1) st)
         else if n_inStringSingleQuote st then
           (if input ! c = CHR 0x27 \<and> prevChar input c \<noteq> Some CHR 0x5C
            then nextElementPos_loop input (c + 1) (st\<lparr>n_inStringSingleQuote := False\<rparr>)
            else nextElementPos_loop input (c + 1) st)
         else if n_inStringMultiLine st then
           (if input ! c = CHR 0x60
            then nextElementPos_loop input (c + 1) (st\<lparr>n_inStringMultiLine := False\<rparr>)
            else nextElementPos_loop input (c + 1) st)
         else if input ! c = CHR 0x22 then
           nextElementPos_loop input (c + 1) (st\<lparr>n_inStringDoubleQuote := True\<rparr>)
         else if input ! c = CHR 0x27 then
           nextElementPos_loop input (c + 1) (st\<lparr>n_inStringSingleQuote := True\<rparr>)
         else if input ! c = CHR 0x60 then
           nextElementPos_loop input (c + 1) (st\<lparr>n_inStringMultiLine := True\<rparr>)
         else if input ! c = CHR ''<'' then
           (if reTest reElementStart (charAt input (int c + 1))
                \<and> \<not> isExpression input c (length input)
            then Some c
            else nextElementPos_loop input (c + 1) st)
         else nextElementPos_loop input (c + 1) st)
      else None)"
  by pat_completeness auto
termination
  by (relation "measure (\<lambda>(input, c, st). length input - c)") auto

declare nextElementPos_loop.simps [simp del]

definition nextElementPos :: "string \<Rightarrow> int \<Rightarrow> int option" where
  "nextElementPos input cur =
     map_option int (nextElementPos_loop input (nat cur)
        \<lparr> n_inStringSingleQuote = False, n_inStringDoubleQuote = False,
          n_inStringMultiLine = False \<rparr>)"

text \<open>The two regular expressions that accept the last attribute before \<open>&gt;\<close>.\<close>

definition reAttrName :: "string \<Rightarrow> bool" where
  "reAttrName s = list_all (\<lambda>c. isAlpha c \<or> isDigit c \<or> c = CHR ''-'' \<or> c = CHR ''_'') s"

definition isLineTerminator :: "char \<Rightarrow> bool" where
  "isLineTerminator c = (c = CHR 0x0A \<or> c = CHR 0x0D)"

fun reSpread :: "string \<Rightarrow> bool" where
  "reSpread [] = False"
| "reSpread (c # cs) =
     ((c = CHR ''{'' \<and> take 3 cs = ''...''
        \<and> CHR ''}'' \<in> set (drop 1 (takeWhile (\<lambda>x. \<not> isLineTerminator x) (drop 3 cs))))
      \<or> reSpread cs)"

definition isTagSpace :: "string \<Rightarrow> bool" where
  "isTagSpace c = (c = '' '' \<or> c = [CHR 0x09] \<or> c = [CHR 0x0A] \<or> c = [CHR 0x0D])"

text \<open>How one round of the attribute loop (the inner \<open>while\<close>) ends.\<close>

datatype inner_result =
    IContinue lexer el_state
  | ICall lexer el_state
  | IBreak lexer el_state
  | IReturn lexer
  | IThrow error

text \<open>The end of a round that left the \<open>switch\<close> by \<open>break\<close>: from \<open>if (state.breakLoop)\<close> on.\<close>

definition innerFinish :: "string \<Rightarrow> lexer \<Rightarrow> el_state \<Rightarrow> inner_result" where
  "innerFinish input g st =
     (if breakLoop st then
        (let trimValue = trim (svalue st);
             lastToken = (if t_tokens g = [] then None else Some (last (t_tokens g)))
         in if svalue st = ''/'' \<and> t_char g = ''>'' \<and> lastToken = None then
              IThrow (TypeError ''type'')
            else if svalue st = ''/'' \<and> t_char g = ''>''
                    \<and> map_option tok_type lastToken = Some E_START then
              (let g1 = pushToken g E_END (svalue st @ t_char g) (Some (t_current g)) in
               if elementStack st \<le> 1 then
                 IReturn (if peekCurrent input g1 \<noteq> Some CHR ''}''
                          then g1\<lparr>t_current := t_current g1 - 1\<rparr> else g1)
               else IBreak g1 ((popElement st)\<lparr>svalue := [], breakLoop := False\<rparr>))
            else if t_char g = ''>'' \<and> trimValue \<noteq> []
                    \<and> (reAttrName trimValue \<or> reSpread trimValue) \<and> lastToken = None then
              IThrow (TypeError ''type'')
            else if t_char g = ''>'' \<and> trimValue \<noteq> []
                    \<and> (reAttrName trimValue \<or> reSpread trimValue)
                    \<and> (map_option tok_type lastToken = Some E_START
                         \<or> map_option tok_type lastToken = Some E_VALUE) then
              IBreak (pushToken g E_PROP trimValue (Some (t_current g)))
                     (st\<lparr>svalue := [], breakLoop := False\<rparr>)
            else if trimValue \<noteq> [] then
              IThrow (Error (''Unhandled character in element properties: `'' @ svalue st @ ''`''
                             @ getTextPosition input (Some (t_current g))))
            else IBreak g (st\<lparr>svalue := [], breakLoop := False\<rparr>))
      else IContinue g (st\<lparr>svalue := svalue st @ t_char g\<rparr>))"

text \<open>
  The cases of the \<open>switch (char)\<close> of the attribute loop; \<open>g\<close> is the state after
  \<open>char = input[current]; current++\<close>. A case that ends with \<open>continue\<close> gives \<open>IContinue\<close>;
  one that ends with \<open>break\<close> goes on with \<open>innerFinish\<close>. Where the source calls
  \<open>tokenizeElement(current, false)\<close> the round stops with \<open>ICall\<close>, after \<open>current--\<close>.
\<close>

definition caseEquals :: "string \<Rightarrow> lexer \<Rightarrow> el_state \<Rightarrow> inner_result" where
  "caseEquals input g st =
     (case ces st of
        None \<Rightarrow> IThrow (TypeError ''inPropJs'')
      | Some e \<Rightarrow>
          if inPropJs e then innerFinish input g st
          else
            (let g1 = (if trim (svalue st) \<noteq> []
                       then pushToken g E_PROP (svalue st) (Some (t_current g)) else g);
                 st1 = (if trim (svalue st) \<noteq> []
                        then st\<lparr>hasProp := True, inValue := True\<rparr> else st);
                 st2 = st1\<lparr>svalue := []\<rparr>;
                 nextChar = peekCurrent input g1
             in if nextChar = Some CHR 0x22 \<or> nextChar = Some CHR 0x27 then
                  IContinue (g1\<lparr>t_current := t_current g1 + 1\<rparr>)
                    (st2\<lparr>inPropString := True, propStringChar := nextChar\<rparr>)
                else if nextChar = Some CHR ''{'' then
                  IContinue (g1\<lparr>t_current := t_current g1 + 1\<rparr>)
                    (cesUpdate (\<lambda>e. e\<lparr>inPropJs := True, jsPropBracketCount := 0\<rparr>) st2)
                else IContinue g1 st2))"

definition casePropStringChar :: "string \<Rightarrow> lexer \<Rightarrow> el_state \<Rightarrow> inner_result" where
  "casePropStringChar input g st =
     (if inPropString st then
        IContinue
          (pushToken g (if hasProp st then E_VALUE else E_PROP) (jsonStringify (svalue st))
             (Some (t_current g)))
          (st\<lparr>inPropString := False, inValue := False, hasProp := False, svalue := []\<rparr>)
      else innerFinish input g st)"

definition caseCloseBrace :: "string \<Rightarrow> lexer \<Rightarrow> el_state \<Rightarrow> inner_result" where
  "caseCloseBrace input g st =
     (case ces st of
        None \<Rightarrow> IThrow (TypeError ''inPropJs'')
      | Some e \<Rightarrow>
          if inPropJs e then
            (if jsPropBracketCount e = 0 then
               (let st1 = cesUpdate (\<lambda>e. e\<lparr>inPropJs := False\<rparr>) st in
                if trim (svalue st1) \<noteq> [] then
                  (if jsWithElement st1 then
                     IContinue (pushToken g E_CHILD_JS_END (svalue st1) (Some (t_current g)))
                       (st1\<lparr>jsWithElement := False, inValue := False, svalue := []\<rparr>)
                   else if trim (svalue st1) \<noteq> ''>'' then
                     IContinue (pushToken g E_VALUE (svalue st1) (Some (t_current g)))
                       (st1\<lparr>hasProp := False, inValue := False, svalue := []\<rparr>)
                   else IContinue g (st1\<lparr>inValue := False, svalue := []\<rparr>))
                else IContinue g (st1\<lparr>inValue := False, svalue := []\<rparr>))
             else
               innerFinish input g
                 (cesUpdate (\<lambda>e. e\<lparr>jsPropBracketCount := jsPropBracketCount e - 1\<rparr>) st))
          else innerFinish input g st)"

definition caseSpace :: "string \<Rightarrow> lexer \<Rightarrow> el_state \<Rightarrow> inner_result" where
  "caseSpace input g st =
     (case ces st of
        None \<Rightarrow> IThrow (TypeError ''inPropJs'')
      | Some e \<Rightarrow>
          if \<not> inPropJs e then
            innerFinish input
              (if trim (svalue st) \<noteq> []
               then pushToken g (if hasProp st then E_VALUE else E_PROP) (svalue st)
                      (Some (t_current g))
               else g)
              (st\<lparr>inValue := False, svalue := []\<rparr>)
          else innerFinish input g st)"

definition caseSlash :: "string \<Rightarrow> lexer \<Rightarrow> el_state \<Rightarrow> inner_result" where
  "caseSlash input g st =
     (if peekCurrent input g = Some CHR ''>'' then
        innerFinish input (g\<lparr>t_current := t_current g - 1\<rparr>)
          (st\<lparr>breakLoop := True, hasElementName := False\<rparr>)
      else innerFinish input g st)"

definition caseLess :: "string \<Rightarrow> lexer \<Rightarrow> el_state \<Rightarrow> inner_result" where
  "caseLess input g st =
     (case ces st of
        None \<Rightarrow> IThrow (TypeError ''inPropJs'')
      | Some e \<Rightarrow>
          if inPropJs e \<and> peekCurrent input g \<noteq> Some CHR '' '' then
            (if trim (svalue st) \<noteq> [] then
               ICall ((pushToken g E_CHILD_JS_START (svalue st) (Some (t_current g)))
                        \<lparr>t_current := t_current g - 1\<rparr>)
                     (st\<lparr>svalue := [], jsWithElement := True\<rparr>)
             else ICall (g\<lparr>t_current := t_current g - 1\<rparr>) st)
          else innerFinish input g st)"

definition caseOpenBrace :: "string \<Rightarrow> lexer \<Rightarrow> el_state \<Rightarrow> inner_result" where
  "caseOpenBrace input g st =
     (case ces st of
        None \<Rightarrow> IThrow (TypeError ''inPropJs'')
      | Some e \<Rightarrow>
          if inPropJs e then
            innerFinish input g
              (cesUpdate (\<lambda>e. e\<lparr>jsPropBracketCount := jsPropBracketCount e + 1\<rparr>) st)
          else innerFinish input g st)"

definition caseGreater :: "string \<Rightarrow> lexer \<Rightarrow> el_state \<Rightarrow> inner_result" where
  "caseGreater input g st =
     (case ces st of
        None \<Rightarrow> IThrow (TypeError ''inPropJs'')
      | Some e \<Rightarrow>
          if \<not> inPropJs e then
            innerFinish input g (st\<lparr>breakLoop := True, hasElementName := False\<rparr>)
          else innerFinish input g st)"

text \<open>
  One round of the attribute loop, from \<open>char = input[current]; current++\<close> to the end of the
  round. The cases are tried in the order of the \<open>switch\<close>.
\<close>

definition readChar :: "string \<Rightarrow> lexer \<Rightarrow> lexer" where
  "readChar input g0 = g0\<lparr>t_char := [input ! nat (t_current g0)], t_current := t_current g0 + 1\<rparr>"

definition innerStep :: "string \<Rightarrow> lexer \<Rightarrow> el_state \<Rightarrow> inner_result" where
  "innerStep input g0 st =
     (let ch = input ! nat (t_current g0);
          g = readChar input g0
      in
      if inPropString st \<and> Some ch \<noteq> propStringChar st then
        IContinue g (st\<lparr>svalue := svalue st @ [ch]\<rparr>)
      else if ch = CHR ''='' then caseEquals input g st
      else if Some ch = propStringChar st then casePropStringChar input g st
      else if ch = CHR ''}'' then caseCloseBrace input g st
      else if ch = CHR '' '' \<or> ch = CHR 0x09 \<or> ch = CHR 0x0D \<or> ch = CHR 0x0A then
        caseSpace input g st
      else if ch = CHR ''/'' then caseSlash input g st
      else if ch = CHR ''<'' then caseLess input g st
      else if ch = CHR ''{'' then caseOpenBrace input g st
      else if ch = CHR ''>'' then caseGreater input g st
      else innerFinish input g st)"

text \<open>After the nested call has returned: \<open>char = ""; if (state.jsWithElement) current++\<close>.\<close>

definition afterCall :: "string \<Rightarrow> lexer \<Rightarrow> el_state \<Rightarrow> inner_result" where
  "afterCall input g st =
     innerFinish input
       ((g\<lparr>t_char := []\<rparr>)\<lparr>t_current := (if jsWithElement st then t_current g + 1 else t_current g)\<rparr>)
       st"


text \<open>
  The outer loop of \<open>tokenizeElement\<close>. Inside a tag (\<open>state.inElement\<close>) and after the
  attribute loop, if it ran: the \<open>switch (char)\<close> on \<open>/\<close>, \<open>&gt;\<close> and white space.
\<close>

definition elementSwitch :: "string \<Rightarrow> lexer \<Rightarrow> el_state \<Rightarrow> lexer \<times> el_state" where
  "elementSwitch input g st =
     (if t_char g = ''/'' then
        (if svalue st = [] \<or> svalue st = ''<'' then (g, st\<lparr>closingElement := True\<rparr>)
         else if peekCurrent input g = Some CHR ''>'' then
           (g, st\<lparr>closeElement := True, inElement := False, addElementEnd := True\<rparr>)
         else if peekNext input g = Some CHR ''>'' then
           (g\<lparr>t_char := [], t_current := t_current g - 1\<rparr>,
            st\<lparr>closeElement := True, hasElementName := True\<rparr>)
         else
           (g, st\<lparr>fatalError := True,
                  errorMessage := Some (''Error found a '' @ [CHR 0x22] @ ''/'' @ [CHR 0x22]
                     @ '' character in element ['' @ svalue st @ ''] but not closing ''
                     @ [CHR 0x22] @ ''/>'' @ [CHR 0x22]
                     @ getTextPosition input (Some (t_current g)))\<rparr>))
      else if t_char g = ''>'' then (g, st\<lparr>closeElement := True, inElement := False\<rparr>)
      else if isTagSpace (t_char g) then (g, st\<lparr>hasElementName := True, closeElement := True\<rparr>)
      else (g, st))"

text \<open>Between the tags of an element: the \<open>switch (char)\<close> on the braces and \<open>&lt;\<close>.\<close>

definition childSwitch :: "string \<Rightarrow> lexer \<Rightarrow> el_state \<Rightarrow> error + el_state" where
  "childSwitch input g st =
     (if t_char g = ''}'' then
        (case ces st of
           None \<Rightarrow> Inl (TypeError ''inJs'')
         | Some e \<Rightarrow>
             if inJs e then
               (if jsBracketCount e = 0 then
                  Inr ((cesUpdate (\<lambda>e. e\<lparr>inJs := False, closeJs := True\<rparr>) st)
                         \<lparr>addChild := True, addChar := False\<rparr>)
                else Inr (cesUpdate (\<lambda>e. e\<lparr>jsBracketCount := jsBracketCount e - 1\<rparr>) st))
             else Inr st)
      else if t_char g = ''{'' then
        (case ces st of
           None \<Rightarrow> Inl (TypeError ''inJs'')
         | Some e \<Rightarrow>
             if inJs e then
               Inr (cesUpdate (\<lambda>e. e\<lparr>jsBracketCount := jsBracketCount e + 1\<rparr>) st)
             else
               Inr ((cesUpdate (\<lambda>e. e\<lparr>inJs := True, jsBracketCount := 0\<rparr>) st)
                      \<lparr>addChild := True, addChar := False\<rparr>))
      else if t_char g = ''<'' then
        (if reTest reElementStartOrClose (peekNext input g)
              \<and> \<not> isExpression input (nat (t_current g)) (length input)
         then Inr (st\<lparr>addChild := True, inElement := True\<rparr>)
         else Inr st)
      else Inr st)"

text \<open>\<open>if (state.addChild) { ... }\<close>: the text gathered so far becomes a child token.\<close>

definition addChildPart :: "lexer \<Rightarrow> el_state \<Rightarrow> error + lexer \<times> el_state" where
  "addChildPart g st =
     (if addChild st then
        (case ces st of
           None \<Rightarrow>
             (if trim (svalue st) = [] then Inl (TypeError ''closeJs'') else Inl (TypeError ''closeJs''))
         | Some e \<Rightarrow>
             (let g1 =
                (if trim (svalue st) = [] then
                   (if svalue st \<noteq> []
                    then pushToken g E_CHILD_WHITESPACE (svalue st) (Some (t_current g)) else g)
                 else
                   (let isJS = (closeJs e \<or> (inJs e \<and> jsBracketCount e > 0)
                                 \<or> (inJs e \<and> inElement st))
                    in pushToken g (if isJS then E_CHILD_JS else E_CHILD_TEXT) (svalue st)
                         (Some (t_current g))));
                  st1 = st\<lparr>addChild := False, svalue := []\<rparr>
              in Inr (g1, if closeJs e
                          then cesUpdate (\<lambda>e. e\<lparr>closeJs := False, inJs := False\<rparr>) st1
                          else st1)))
      else Inr (g, st))"

text \<open>\<open>if (state.closeElement) { ... } else { ... }\<close>: the start or end token of a tag.\<close>

definition closePart :: "lexer \<Rightarrow> el_state \<Rightarrow> lexer \<times> el_state" where
  "closePart g st =
     (if closeElement st then
        (let st1 = (if \<not> isTagSpace (t_char g) then st\<lparr>svalue := svalue st @ t_char g\<rparr> else st);
             r = (if closingElement st1 then
                    (let g2 = pushToken g E_END (svalue st1) (Some (t_current g));
                         st2 = popElement (st1\<lparr>hasElementName := False\<rparr>)
                     in (g2, if elementStack st2 = 0 then st2\<lparr>elementClosed := True\<rparr> else st2))
                  else if svalue st1 = ''>'' then (g\<lparr>t_current := t_current g - 1\<rparr>, st1)
                  else (pushToken g E_START (svalue st1) (Some (t_current g)), pushElement st1));
             g3 = fst r;
             st3 = (snd r)\<lparr>svalue := [], closeElement := False, closingElement := False\<rparr>
         in if addElementEnd st3
            then (pushToken g3 E_END (svalue st3) None, st3\<lparr>addElementEnd := False\<rparr>)
            else (g3, st3))
      else
        (g, (if addChar st then st\<lparr>svalue := svalue st @ t_char g\<rparr> else st)\<lparr>addChar := True\<rparr>))"

text \<open>
  One round of the outer loop after the attribute loop (if it ran), up to the test of
  \<open>state.elementClosed\<close>.
\<close>

definition outerBody :: "string \<Rightarrow> lexer \<Rightarrow> el_state \<Rightarrow> error + lexer \<times> el_state" where
  "outerBody input g st =
     (if inElement st then
        (let r = elementSwitch input g st in Inr (closePart (fst r) (snd r)))
      else
        (case childSwitch input g st of
           Inl e \<Rightarrow> Inl e
         | Inr st1 \<Rightarrow>
             (case addChildPart g st1 of
                Inl e \<Rightarrow> Inl e
              | Inr r \<Rightarrow> Inr (closePart (fst r) (snd r)))))"

definition initialState :: "string \<Rightarrow> int \<Rightarrow> el_state" where
  "initialState input pos =
     \<lparr> svalue = (case charAt input pos of None \<Rightarrow> ''undefined'' | Some c \<Rightarrow> [c]),
       elementStack = 0, elementState = [], currentElementState = None,
       inElement = True, hasElementName = False, elementClosed = False, closeElement = False,
       closingElement = False, fatalError = False, errorMessage = None, addElementEnd = False,
       breakLoop = False, addChild = False, addChar = True, hasProp = False, inValue = False,
       inPropString = False, propStringChar = None, jsWithElement = False \<rparr>"

text \<open>
  The constants of one run: \<open>input\<close>, \<open>maxRecursiveCalls\<close> and \<open>pos\<close>, the start of the
  outermost element being read.
\<close>

record lex_env =
  e_input :: string
  e_maxRecursiveCalls :: int
  e_pos :: int

definition loopLimit :: "lex_env \<Rightarrow> counters \<Rightarrow> bool" where
  "loopLimit env c = (loopCount c + 1 > int (length (e_input env)))"

definition tick :: "counters \<Rightarrow> counters" where
  "tick c = c\<lparr>loopCount := loopCount c + 1\<rparr>"

definition endlessLoop :: error where
  "endlessLoop = Error ''Endless loop encountered in tokenizer''"

definition callLimitTokenizer :: error where
  "callLimitTokenizer = Error ''Call count exceeded in tokenizer. If you have a large JSX file that is valid you can increase them limit using the property `jsxLoader.compiler.maxRecursiveCalls`.''"

text \<open>
  \<open>tokenizeElement(startPosition, firstNode)\<close> with its two loops. Every \<open>while\<close> is a
  function of its own that calls itself for the next round; leaving the attribute loop goes
  on with the rest of the round of the outer loop (\<open>outerRest\<close>). The first argument bounds
  the depth of these calls; \<open>loopCheck()\<close> and the call counter are the source's.
\<close>

datatype lex_task =
    MainLoop counters lexer
  | TokenizeElement counters lexer int bool
  | OuterLoop counters lexer el_state
  | InnerLoop counters lexer el_state
  | InnerResult counters inner_result
  | OuterRest counters lexer el_state

fun lexRun :: "nat \<Rightarrow> lex_env \<Rightarrow> lex_task \<Rightarrow> error + counters \<times> lexer" where
  "lexRun 0 env t = Inl Diverged"
| "lexRun (Suc n) env (TokenizeElement c g startPosition firstNode) =
     (if callCount c + 1 > e_maxRecursiveCalls env then Inl callLimitTokenizer
      else
        lexRun n env (OuterLoop (c\<lparr>callCount := callCount c + 1\<rparr>)
          ((if t_current g < startPosition \<and> firstNode
            then pushToken g JS (substring (e_input env) (t_current g) startPosition)
                   (Some (t_current g))
            else g)\<lparr>t_current := startPosition + 1\<rparr>)
          (initialState (e_input env) (e_pos env))))"
| "lexRun (Suc n) env (OuterLoop c g st) =
     (if t_current g < int (length (e_input env)) then
        (if loopLimit env c then Inl endlessLoop
         else if inElement st \<and> hasElementName st then
           lexRun n env (InnerLoop (tick c)
             (g\<lparr>t_char := [e_input env ! nat (t_current g)], t_current := t_current g + 1\<rparr>)
             (st\<lparr>svalue := svalue st @ [e_input env ! nat (t_current g)], breakLoop := False,
                 hasProp := False, inValue := False\<rparr>))
         else
           lexRun n env (OuterRest (tick c) (g\<lparr>t_char := [e_input env ! nat (t_current g)]\<rparr>) st))
      else if fatalError st then
        Inl (Error (case errorMessage st of None \<Rightarrow> ''null'' | Some m \<Rightarrow> m))
      else Inr (c, g))"
| "lexRun (Suc n) env (InnerLoop c g st) =
     (if t_current g < int (length (e_input env)) then
        (if loopLimit env c then Inl endlessLoop
         else lexRun n env (InnerResult (tick c) (innerStep (e_input env) g st)))
      else lexRun n env (OuterRest c g st))"
| "lexRun (Suc n) env (InnerResult c (IContinue g st)) = lexRun n env (InnerLoop c g st)"
| "lexRun (Suc n) env (InnerResult c (IBreak g st)) = lexRun n env (OuterRest c g st)"
| "lexRun (Suc n) env (InnerResult c (IReturn g)) = Inr (c, g)"
| "lexRun (Suc n) env (InnerResult c (IThrow e)) = Inl e"
| "lexRun (Suc n) env (InnerResult c (ICall g st)) =
     (let r = lexRun n env (TokenizeElement c g (t_current g) False) in
      if isl r then r
      else lexRun n env (InnerResult (fst (projr r)) (afterCall (e_input env) (snd (projr r)) st)))"
| "lexRun (Suc n) env (OuterRest c g st) =
     (let r = outerBody (e_input env) g st in
      if isl r then Inl (projl r)
      else if elementClosed (snd (projr r)) then
        (if fatalError (snd (projr r)) then
           Inl (Error (case errorMessage (snd (projr r)) of None \<Rightarrow> ''null'' | Some m \<Rightarrow> m))
         else Inr (c, fst (projr r)))
      else
        lexRun n env (OuterLoop c ((fst (projr r))\<lparr>t_current := t_current (fst (projr r)) + 1\<rparr>)
          (snd (projr r))))"
| "lexRun (Suc n) env (MainLoop c g) =
     (if t_current g < int (length (e_input env)) then
        (if loopLimit env c then Inl endlessLoop
         else if nextElementPos (e_input env) (t_current g) = None then
           Inr (tick c,
                pushToken g JS (substring (e_input env) (t_current g) (int (length (e_input env))))
                  (Some (t_current g)))
         else
           (let r = lexRun n (env\<lparr>e_pos := the (nextElementPos (e_input env) (t_current g))\<rparr>)
                      (TokenizeElement (tick c) g
                         (the (nextElementPos (e_input env) (t_current g))) True)
            in if isl r then r
               else lexRun n env
                      (MainLoop (fst (projr r))
                         ((snd (projr r))\<lparr>t_current := t_current (snd (projr r)) + 1\<rparr>))))
      else Inr (c, g))"

definition lexFuel :: "string \<Rightarrow> nat" where
  "lexFuel input = 5 * length input + 10"

text \<open>\<open>tokenizer(input)\<close>, with \<open>this.maxRecursiveCalls\<close> as its first argument.\<close>

definition tokenizer :: "int \<Rightarrow> string \<Rightarrow> error + token list" where
  "tokenizer maxRecursiveCalls input =
     (let r = lexRun (lexFuel input)
                \<lparr> e_input = input, e_maxRecursiveCalls = maxRecursiveCalls, e_pos = 0 \<rparr>
                (MainLoop \<lparr> loopCount = 0, callCount = 0 \<rparr>
                   \<lparr> t_current = 0, t_tokens = [], t_char = [] \<rparr>)
      in if isl r then Inl (projl r) else Inr (t_tokens (snd (projr r))))"

section \<open>Compiler step 3: the parser\<close>

text \<open>
  The abstract syntax tree. A \<open>program\<close> has a body; a \<open>js\<close> node has the text of a token;
  a \<open>createElement\<close> node has \<open>name\<close>, \<open>isClass\<close>, \<open>props\<close>, \<open>children\<close>, \<open>pos\<close> and
  \<open>stackCount\<close>. A prop is \<open>{ name, value, pos }\<close> whose value is \<open>null\<close>, a string, an element
  node, or an array of tokens and element nodes that starts with an \<open>e_child_js_start\<close> token.
  A child is \<open>{ type, value, pos }\<close>: its type is a token type, and its value a string, an
  element node for \<open>e_start\<close>, or the local variable \<open>value\<close> of \<open>walk\<close> (which may be
  \<open>undefined\<close>) for \<open>e_child_js_start\<close> and \<open>e_child_js_end\<close>.
\<close>

datatype node =
    Program "node list"
  | JsNode string "int option" int
  | CreateElement string bool "elprop list" "child list" "int option" int
and elprop = Prop string propValue "int option"
and propValue = PNull | PString string | PNode node | PArray "arrayItem list"
and arrayItem = ATok token | ANode node
and child =
    ChildJs string "int option"
  | ChildJsStart "string option" "int option"
  | ChildJsEnd "string option" "int option"
  | ChildText string "int option"
  | ChildWhitespace string "int option"
  | ChildElement node "int option"

text \<open>\<open>s.replace(c, "")\<close> for a one-character pattern: the first occurrence goes.\<close>

fun removeFirst :: "char \<Rightarrow> string \<Rightarrow> string" where
  "removeFirst c [] = []"
| "removeFirst c (x # xs) = (if x = c then xs else x # removeFirst c xs)"

definition tagName :: "string \<Rightarrow> string" where
  "tagName v = removeFirst (CHR ''>'') (removeFirst (CHR ''/'') (removeFirst (CHR ''<'') v))"

definition isClassName :: "string \<Rightarrow> bool" where
  "isClassName elName =
     ((case elName of [] \<Rightarrow> False
       | firstChar # _ \<Rightarrow> 65 \<le> (of_char firstChar :: nat) \<and> (of_char firstChar :: nat) \<le> 90)
      \<or> CHR ''.'' \<in> set elName)"

text \<open>The variables of \<open>parser\<close> that \<open>walk\<close> changes.\<close>

record parse_state =
  p_current :: nat
  p_callCount :: int
  e_start_count :: int
  e_end_count :: int

record parse_env =
  pe_tokens :: "token list"
  pe_input :: string
  pe_maxRecursiveCalls :: int
  pe_pragmaFrag :: string

text \<open>The element node that \<open>walk\<close> is filling, with the local variable \<open>value\<close>.\<close>

record element =
  el_name :: string
  el_isClass :: bool
  el_props :: "elprop list"
  el_children :: "child list"
  el_pos :: "int option"
  el_stackCount :: int
  el_value :: "string option"

definition elementNode :: "element \<Rightarrow> node" where
  "elementNode el =
     CreateElement (el_name el) (el_isClass el) (el_props el) (el_children el) (el_pos el)
       (el_stackCount el)"

definition showIndex :: "nat option \<Rightarrow> string" where
  "showIndex i = (case i of None \<Rightarrow> ''undefined'' | Some n \<Rightarrow> showNat n)"

definition mismatchedTags :: "string \<Rightarrow> string \<Rightarrow> string \<Rightarrow> token \<Rightarrow> error" where
  "mismatchedTags input endName name token =
     Error (''Found closing element ['' @ endName @ ''] that does not match opening element [''
            @ name @ ''] from Token # '' @ showIndex (tok_index token)
            @ getTextPosition input (tok_pos token))"

definition outOfOrder1 :: "string \<Rightarrow> token \<Rightarrow> error" where
  "outOfOrder1 input token =
     Error (''Tokens are out of order 1: ['' @ tokenTypeName (tok_type token) @ ''], Token #: ''
            @ showIndex (tok_index token) @ getTextPosition input (tok_pos token))"

definition outOfOrder2 :: "string \<Rightarrow> token \<Rightarrow> error" where
  "outOfOrder2 input token =
     Error (''Tokens are out of order 2: ['' @ tokenTypeName (tok_type token) @ ''], Token #: ''
            @ showIndex (tok_index token) @ getTextPosition input (tok_pos token))"

definition unexpectedInJsChild :: "string \<Rightarrow> token \<Rightarrow> error" where
  "unexpectedInJsChild input token =
     Error (''Found unexpected token type in JS child prop: ['' @ tokenTypeName (tok_type token)
            @ ''], Token #: '' @ showIndex (tok_index token)
            @ getTextPosition input (tok_pos token))"

definition callLimitParser :: error where
  "callLimitParser = Error ''Call count exceeded in parser. If you have a large JSX file that is valid you can increase them limit using the property `jsxLoader.compiler.maxRecursiveCalls`.''"

definition unbalancedElements :: error where
  "unbalancedElements = Error (''The number of opening elements (for example: '' @ [CHR 0x22]
     @ ''<div>'' @ [CHR 0x22] @ '') does not match the number closing elements ('' @ [CHR 0x22]
     @ ''</div>'' @ [CHR 0x22] @ '').'')"

text \<open>The child made from an \<open>e_child_js\<close> token: trimmed, without one pair of braces.\<close>

definition childJsValue :: "string \<Rightarrow> string" where
  "childJsValue v =
     (let v1 = trim v;
          v2 = (if v1 \<noteq> [] \<and> hd v1 = CHR ''{'' then tl v1 else v1)
      in if v2 \<noteq> [] \<and> last v2 = CHR ''}'' then butlast v2 else v2)"

text \<open>What \<open>walk\<close> and the loops of the parser give back.\<close>

datatype walk_result = RNode node | RArray "arrayItem list" | RBody "node list"

definition theNode :: "walk_result \<Rightarrow> node" where
  "theNode r = (case r of RNode n \<Rightarrow> n | _ \<Rightarrow> Program [])"

text \<open>
  The steps of the parser. \<open>Walk\<close> is a call of \<open>walk(stackCount, startingToken)\<close>, where
  the flag says whether \<open>startingToken\<close> is \<open>e_child_js_start\<close>; \<open>ElementLoop\<close> is the loop that
  fills an element node; \<open>PropValue\<close> and \<open>ChildValue\<close> go on in that loop when the call of
  \<open>walk\<close> for the value of a prop or for a child element has returned; \<open>JsChildLoop\<close> is the
  loop that collects the array for an \<open>e_child_js_start\<close>, and \<open>JsChildValue\<close> goes on in it
  after a call of \<open>walk\<close>; \<open>ParserMain\<close> is the loop at the end of \<open>parser\<close>.
\<close>

datatype parse_task =
    Walk parse_state int bool
  | ElementLoop parse_state element
  | JsChildLoop parse_state int "arrayItem list" token
  | ParserMain parse_state "node list"

text \<open>
  One round of the loop that fills an element, for the tokens that need no call of \<open>walk\<close>:
  the result is the state and element after the round, and whether the loop ends.
\<close>

definition propOf :: "token \<Rightarrow> propValue \<Rightarrow> elprop" where
  "propOf token v = Prop (tok_value token) v (tok_pos token)"

definition addProp :: "element \<Rightarrow> token \<Rightarrow> propValue \<Rightarrow> element" where
  "addProp el token v =
     (if trim (tok_value token) \<noteq> [] then el\<lparr>el_props := el_props el @ [propOf token v]\<rparr> else el)"

definition addChild1 :: "element \<Rightarrow> child \<Rightarrow> element" where
  "addChild1 el c = el\<lparr>el_children := el_children el @ [c]\<rparr>"

definition nextTokenType :: "parse_env \<Rightarrow> parse_state \<Rightarrow> tokenType option" where
  "nextTokenType env ps =
     (if p_current ps < length (pe_tokens env) then Some (tok_type (pe_tokens env ! p_current ps))
      else None)"

definition advance :: "parse_state \<Rightarrow> parse_state" where
  "advance ps = ps\<lparr>p_current := p_current ps + 1\<rparr>"

fun parseRun :: "nat \<Rightarrow> parse_env \<Rightarrow> parse_task \<Rightarrow> error + parse_state \<times> walk_result" where
  "parseRun 0 env t = Inl Diverged"
| "parseRun (Suc n) env (Walk ps0 stackCount startsJs) =
     (if p_callCount ps0 + 1 > pe_maxRecursiveCalls env then Inl callLimitParser
      else if \<not> p_current ps0 < length (pe_tokens env) then Inl (TypeError ''type'')
      else
        (let token = pe_tokens env ! p_current ps0;
             ps = advance (ps0\<lparr>p_callCount := p_callCount ps0 + 1\<rparr>)
         in if tok_type token = JS then
              Inr (ps, RNode (JsNode (tok_value token) (tok_pos token) stackCount))
            else if tok_type token = E_START then
              parseRun n env
                (ElementLoop (ps\<lparr>e_start_count := e_start_count ps + 1\<rparr>)
                   (let elName = (if tagName (tok_value token) = [] then pe_pragmaFrag env
                                  else tagName (tok_value token))
                    in \<lparr> el_name = elName, el_isClass = isClassName elName, el_props = [],
                         el_children = [], el_pos = tok_pos token, el_stackCount = stackCount,
                         el_value = None \<rparr>))
            else if tok_type token = E_CHILD_JS_START \<and> startsJs then
              parseRun n env (JsChildLoop ps stackCount [ATok token] token)
            else Inl (outOfOrder2 (pe_input env) token)))"
| "parseRun (Suc n) env (ElementLoop ps0 el) =
     (if p_current ps0 < length (pe_tokens env) then
        (let token = pe_tokens env ! p_current ps0;
             ps = advance ps0
         in
         if tok_type token = E_PROP then
           (if nextTokenType env ps = Some E_VALUE \<or> nextTokenType env ps = Some JS then
              parseRun n env
                (ElementLoop (advance ps)
                   (addProp el token (PString (tok_value (pe_tokens env ! p_current ps)))))
            else if nextTokenType env ps = Some E_START then
              (let r = parseRun n env (Walk ps (el_stackCount el + 1) False) in
               if isl r then r
               else parseRun n env
                      (ElementLoop (fst (projr r))
                         (addProp el token (PNode (theNode (snd (projr r)))))))
            else if nextTokenType env ps = Some E_CHILD_JS_START then
              (let r = parseRun n env (Walk ps (el_stackCount el + 1) True) in
               if isl r then r
               else parseRun n env
                      (ElementLoop (fst (projr r))
                         (addProp el token
                            (case snd (projr r) of RArray a \<Rightarrow> PArray a
                             | RNode nd \<Rightarrow> PNode nd | RBody b \<Rightarrow> PNull))))
            else parseRun n env (ElementLoop ps (addProp el token PNull)))
         else if tok_type token = E_CHILD_JS then
           (if trim (tok_value token) \<noteq> [] then
              parseRun n env
                (ElementLoop ps
                   (addChild1 (el\<lparr>el_value := Some (childJsValue (tok_value token))\<rparr>)
                      (ChildJs (childJsValue (tok_value token)) (tok_pos token))))
            else parseRun n env (ElementLoop ps el))
         else if tok_type token = E_CHILD_JS_START then
           parseRun n env (ElementLoop ps (addChild1 el (ChildJsStart (el_value el) (tok_pos token))))
         else if tok_type token = E_CHILD_JS_END then
           parseRun n env (ElementLoop ps (addChild1 el (ChildJsEnd (el_value el) (tok_pos token))))
         else if tok_type token = E_CHILD_TEXT then
           (if trim (tok_value token) \<noteq> [] then
              parseRun n env
                (ElementLoop ps (addChild1 el (ChildText (tok_value token) (tok_pos token))))
            else parseRun n env (ElementLoop ps el))
         else if tok_type token = E_CHILD_WHITESPACE then
           parseRun n env
             (ElementLoop ps (addChild1 el (ChildWhitespace (tok_value token) (tok_pos token))))
         else if tok_type token = E_END then
           (if tagName (tok_value token) \<noteq> el_name el \<and> tagName (tok_value token) \<noteq> [] then
              Inl (mismatchedTags (pe_input env) (tagName (tok_value token)) (el_name el) token)
            else Inr (ps\<lparr>e_end_count := e_end_count ps + 1\<rparr>, RNode (elementNode el)))
         else if tok_type token = E_START then
           (let r = parseRun n env (Walk ps0 (el_stackCount el + 1) False) in
            if isl r then r
            else parseRun n env
                   (ElementLoop (fst (projr r))
                      (addChild1 el (ChildElement (theNode (snd (projr r))) (tok_pos token)))))
         else Inl (outOfOrder1 (pe_input env) token))
      else Inr (ps0, RNode (elementNode el)))"
| "parseRun (Suc n) env (JsChildLoop ps0 stackCount nodes lastToken) =
     (if p_current ps0 < length (pe_tokens env) then
        (let token = pe_tokens env ! p_current ps0 in
         if tok_type token = E_START then
           (let r = parseRun n env (Walk ps0 (stackCount + 1) False) in
            if isl r then r
            else parseRun n env
                   (JsChildLoop (fst (projr r)) stackCount
                      (nodes @ [ANode (theNode (snd (projr r)))]) token))
         else if tok_type token = E_CHILD_JS_END then
           Inr (advance ps0, RArray (nodes @ [ATok token]))
         else Inl (unexpectedInJsChild (pe_input env) token))
      else Inl (outOfOrder2 (pe_input env) lastToken))"
| "parseRun (Suc n) env (ParserMain ps body) =
     (if p_current ps < length (pe_tokens env) then
        (let r = parseRun n env (Walk ps 0 False) in
         if isl r then r
         else parseRun n env (ParserMain (fst (projr r)) (body @ [theNode (snd (projr r))])))
      else Inr (ps, RBody body))"

section \<open>Compiler step 4: the code generator\<close>

text \<open>
  What \<open>generateCode\<close> reads besides the tree: \<open>createElement\<close> (the pragma in force),
  \<open>addUseStrict\<close>, and the decoding of HTML in a text child, which the source leaves to the
  DOM of the browser (\<open>innerHTML\<close>, then \<open>textContent\<close>); it is a parameter here.
\<close>

record gen_env =
  g_createElement :: string
  g_addUseStrict :: bool
  g_decodeHtml :: "string \<Rightarrow> string"

definition unhandledAstType :: "string \<Rightarrow> error" where
  "unhandledAstType ty = TypeError (''Unhandled AST type in codeGenerator: '' @ ty)"

text \<open>\<open>Array.prototype.join\<close> on the texts of the entries.\<close>

fun joinWith :: "string \<Rightarrow> string list \<Rightarrow> string" where
  "joinWith sep [] = []"
| "joinWith sep [x] = x"
| "joinWith sep (x # y # ys) = x @ sep @ joinWith sep (y # ys)"

text \<open>
  The values an entry of \<open>childJs\<close> can hold: a string, \<open>undefined\<close>, or the number \<open>NaN\<close>
  (the sum of two values of which none is a string). \<open>jsPlus\<close> is the operator \<open>+\<close> on them:
  with a string on either side it joins the two as strings, where \<open>undefined\<close> and \<open>NaN\<close> print
  as their names; otherwise the sum is \<open>NaN\<close>. \<open>joinEntry\<close> is what \<open>Array.prototype.join\<close> writes
  for an entry: nothing for \<open>undefined\<close>.
\<close>

datatype jsval = Undefined | NaN | Str string

definition ofOption :: "string option \<Rightarrow> jsval" where
  "ofOption v = (case v of None \<Rightarrow> Undefined | Some s \<Rightarrow> Str s)"

definition toStr :: "jsval \<Rightarrow> string" where
  "toStr v = (case v of Undefined \<Rightarrow> ''undefined'' | NaN \<Rightarrow> ''NaN'' | Str s \<Rightarrow> s)"

definition isStr :: "jsval \<Rightarrow> bool" where
  "isStr v = (case v of Str s \<Rightarrow> True | _ \<Rightarrow> False)"

definition jsPlus :: "jsval \<Rightarrow> jsval \<Rightarrow> jsval" where
  "jsPlus a b = (if isStr a \<or> isStr b then Str (toStr a @ toStr b) else NaN)"

definition joinEntry :: "jsval \<Rightarrow> string" where
  "joinEntry v = (case v of Undefined \<Rightarrow> [] | NaN \<Rightarrow> ''NaN'' | Str s \<Rightarrow> s)"

text \<open>The first error of a list of results, or all the values.\<close>

fun sequence :: "(error + 'a) list \<Rightarrow> error + 'a list" where
  "sequence [] = Inr []"
| "sequence (r # rs) =
     (if isl r then Inl (projl r)
      else (let rest = sequence rs
            in if isl rest then Inl (projl rest) else Inr (projr r # projr rest)))"

text \<open>
  \<open>" ".repeat(n)\<close>, which throws a \<open>RangeError\<close> for a negative count; \<open>spaces n\<close> is its value
  where it is called with a count that cannot be negative.
\<close>

definition repeatSpace :: "int \<Rightarrow> error + string" where
  "repeatSpace n = (if n < 0 then Inl RangeError else Inr (replicate (nat n) (CHR '' '')))"

definition spaces :: "int \<Rightarrow> string" where
  "spaces n = replicate (nat n) (CHR '' '')"

text \<open>
  The opening of a call: the pragma, the name, and the indentation of a nested element
  (\<open>repeat\<close> is called under \<open>node.stackCount > 0\<close> there).
\<close>

definition elementHead :: "gen_env \<Rightarrow> string \<Rightarrow> bool \<Rightarrow> int \<Rightarrow> bool \<Rightarrow> string" where
  "elementHead env name isClass stackCount skipIndent =
     (let js = g_createElement env @ ''('' @ (if isClass then name else jsonStringify name) @ '', ''
      in if stackCount > 0 then
           (if \<not> skipIndent then [CHR 0x0A] @ spaces 8 @ spaces (stackCount * 4) @ js
            else '' '' @ js)
         else js)"

text \<open>
  The props. \<open>propText\<close> is the entry of \<open>propJs\<close> for one prop, from its name, the text of
  its value and whether it is the last one.
\<close>

definition propNameOf :: "elprop \<Rightarrow> string" where
  "propNameOf p = (case p of Prop name v pos \<Rightarrow> name)"

definition propText :: "string \<Rightarrow> string \<Rightarrow> bool \<Rightarrow> string" where
  "propText name propValue isLast =
     (let propName0 = trim name;
          propName = (if CHR ''-'' \<in> set propName0 then jsonStringify propName0 else propName0)
      in if propValue = ''true'' \<and> reSpread propName then
           tl (butlast propName) @ (if isLast then [] else '', '')
         else propName @ '': '' @ propValue @ (if isLast then [] else '', ''))"

fun propTexts :: "string list \<Rightarrow> string list \<Rightarrow> string list" where
  "propTexts (n # ns) (v # vs) = propText n v (ns = []) # propTexts ns vs"
| "propTexts ns vs = []"

definition propsCode :: "elprop list \<Rightarrow> string list \<Rightarrow> int \<Rightarrow> bool \<Rightarrow> error + string" where
  "propsCode props values stackCount skipIndent =
     (if props = [] then Inr ''null''
      else
        (let propJs = propTexts (map propNameOf props) values;
             propTextLen = sum_list (map length propJs)
         in if propTextLen > 80 then
              (if \<not> skipIndent then
                 (let indent = repeatSpace (stackCount * 4)
                  in if isl indent then Inl (projl indent)
                     else
                       (let propIndent = [CHR 0x0A] @ spaces 12 @ projr indent
                        in Inr (''{'' @ propIndent @ joinWith propIndent propJs @ ''}'')))
               else Inr (''{'' @ [CHR 0x0A] @ joinWith [CHR 0x0A] propJs @ ''}''))
            else Inr (''{'' @ concat propJs @ ''}'')))"

text \<open>The children: the first loop, which looks at the types of the children.\<close>

definition isChildJsLike :: "child \<Rightarrow> bool" where
  "isChildJsLike c = (case c of ChildJs v p \<Rightarrow> True | ChildJsStart v p \<Rightarrow> True | _ \<Rightarrow> False)"

definition isChildText :: "child \<Rightarrow> bool" where
  "isChildText c = (case c of ChildText v p \<Rightarrow> True | _ \<Rightarrow> False)"

definition isChildElement :: "child \<Rightarrow> bool" where
  "isChildElement c = (case c of ChildElement n p \<Rightarrow> True | _ \<Rightarrow> False)"

definition isChildJs :: "child \<Rightarrow> bool" where
  "isChildJs c = (case c of ChildJs v p \<Rightarrow> True | _ \<Rightarrow> False)"

definition hasNoParens :: "child \<Rightarrow> bool" where
  "hasNoParens c =
     (case c of ChildJs v p \<Rightarrow> CHR ''('' \<notin> set v \<and> CHR '')'' \<notin> set v
      | ChildJsStart (Some v) p \<Rightarrow> CHR ''('' \<notin> set v \<and> CHR '')'' \<notin> set v
      | _ \<Rightarrow> False)"

text \<open>The second loop. Its variables:\<close>

record child_loop =
  childJs :: "jsval list"
  lastIndex :: "nat option"
  childElCount :: int
  lastElAddedAsJs :: bool
  startsWithJs :: bool

text \<open>
  \<open>childJs[childJs.length - 1] += v\<close>. On an empty array this sets the property \<open>-1\<close>, which is
  no element of the array.
\<close>

definition appendToLast :: "jsval list \<Rightarrow> jsval \<Rightarrow> jsval list" where
  "appendToLast js v = (if js = [] then [] else butlast js @ [jsPlus (last js) v])"

definition endsWith :: "string \<Rightarrow> string \<Rightarrow> bool" where
  "endsWith s suf = (length suf \<le> length s \<and> drop (length s - length suf) s = suf)"

text \<open>The test that makes an element part of the JavaScript before it.\<close>

definition endsWithOperator :: "string \<Rightarrow> bool" where
  "endsWithOperator lastValue =
     (endsWith lastValue ''&&'' \<or> endsWith lastValue ''?'' \<or> endsWith lastValue ''(''
      \<or> endsWith lastValue '':'' \<or> endsWith lastValue '' return'')"

definition childValueString :: "child \<Rightarrow> string" where
  "childValueString c = (case c of ChildJs v p \<Rightarrow> v | _ \<Rightarrow> [])"

text \<open>
  \<open>skipElIndent\<close> for the child at hand: whether the child at \<open>lastIndex\<close> is an
  \<open>e_child_js\<close>.
\<close>

definition skipElIndentOf :: "child list \<Rightarrow> nat option \<Rightarrow> bool" where
  "skipElIndentOf children li = (case li of None \<Rightarrow> False | Some i \<Rightarrow> isChildJs (children ! i))"

text \<open>
  One round of the second loop, for the child \<open>c\<close> at index \<open>m\<close>; \<open>code\<close> is the text that
  \<open>generateCode\<close> gave for it if it is an element.
\<close>

definition childStep ::
  "gen_env \<Rightarrow> child list \<Rightarrow> bool \<Rightarrow> bool \<Rightarrow> nat \<Rightarrow> child \<Rightarrow> string \<Rightarrow> child_loop \<Rightarrow> child_loop" where
  "childStep env children hasChildJs hasChildText m c code st =
     (case c of
        ChildJs v p \<Rightarrow>
          (if lastElAddedAsJs st then st\<lparr>childJs := appendToLast (childJs st) (Str v), lastIndex := Some m\<rparr>
           else st\<lparr>childJs := childJs st @ [Str v], lastIndex := Some m,
                   startsWithJs := (startsWithJs st \<or> length (childJs st) + 1 = 1)\<rparr>)
      | ChildJsStart v p \<Rightarrow>
          (if lastElAddedAsJs st then
             st\<lparr>childJs := appendToLast (childJs st) (ofOption v), lastIndex := Some m\<rparr>
           else st\<lparr>childJs := childJs st @ [ofOption v], lastIndex := Some m,
                   startsWithJs := (startsWithJs st \<or> length (childJs st) + 1 = 1)\<rparr>)
      | ChildText v p \<Rightarrow>
          (let nodeValue = (if CHR ''&'' \<in> set v then g_decodeHtml env v else v);
               text = (if length children = 1 then jsonStringify nodeValue
                       else if m = length children - 1 then jsonStringify (trimEnd nodeValue)
                       else if m = 0 then jsonStringify (trimStart nodeValue)
                       else jsonStringify nodeValue)
           in st\<lparr>childJs := childJs st @ [Str text], lastIndex := Some m\<rparr>)
      | ChildJsEnd v p \<Rightarrow> st\<lparr>childJs := childJs st @ [ofOption v], lastIndex := Some m\<rparr>
      | ChildElement nd p \<Rightarrow>
          (if skipElIndentOf children (lastIndex st)
                \<and> endsWithOperator (trim (childValueString (children ! the (lastIndex st)))) then
             st\<lparr>childJs := appendToLast (childJs st) (Str code),
                childElCount := childElCount st - 1, lastElAddedAsJs := True, lastIndex := Some m\<rparr>
           else st\<lparr>childJs := childJs st @ [Str code], lastElAddedAsJs := False,
                   lastIndex := Some m\<rparr>)
      | ChildWhitespace v p \<Rightarrow>
          (if (hasChildJs \<or> hasChildText) \<and> \<not> (m = 0 \<or> m = length children - 1) then
             st\<lparr>childJs := childJs st @ [Str (jsonStringify v)], lastElAddedAsJs := False\<rparr>
           else st))"

fun childLoop ::
  "gen_env \<Rightarrow> child list \<Rightarrow> bool \<Rightarrow> bool \<Rightarrow> nat \<Rightarrow> child list \<Rightarrow> string list \<Rightarrow> child_loop \<Rightarrow> child_loop" where
  "childLoop env children hasChildJs hasChildText m (c # cs) (code # codes) st =
     childLoop env children hasChildJs hasChildText (m + 1) cs codes
       (childStep env children hasChildJs hasChildText m c code st)"
| "childLoop env children hasChildJs hasChildText m cs codes st = st"

definition childrenCode :: "gen_env \<Rightarrow> child list \<Rightarrow> string list \<Rightarrow> string" where
  "childrenCode env children codes =
     (let hasChildJs = list_ex isChildJsLike children;
          hasChildText = list_ex isChildText children;
          hasChildEl = list_ex isChildElement children;
          allChildJsContainsExpressions = \<not> list_ex hasNoParens children;
          st = childLoop env children hasChildJs hasChildText 0 children codes
                 \<lparr> childJs = [], lastIndex = None,
                   childElCount = int (length (filter isChildElement children)),
                   lastElAddedAsJs = False, startsWithJs = False \<rparr>
      in if childJs st \<noteq> [] then
           (if \<not> hasChildText \<and> hasChildJs \<and> hasChildEl \<and> startsWithJs st
                 \<and> childElCount st = 1 \<and> allChildJsContainsExpressions
            then '', '' @ concat (map joinEntry (childJs st))
            else '', '' @ joinWith '', '' (map joinEntry (childJs st)))
         else [])"

text \<open>The whole text of an element, from the text of its props and the texts of its child elements.\<close>

definition elementCode ::
  "gen_env \<Rightarrow> string \<Rightarrow> bool \<Rightarrow> int \<Rightarrow> bool \<Rightarrow> string \<Rightarrow> child list \<Rightarrow> string list \<Rightarrow> string" where
  "elementCode env name isClass stackCount skipIndent propsJs children codes =
     elementHead env name isClass stackCount skipIndent @ propsJs
       @ childrenCode env children codes @ '')''"

definition useStrictPrefix :: string where
  "useStrictPrefix = [CHR 0x22] @ ''use strict'' @ [CHR 0x22] @ '';'' @ [CHR 0x0A]"

definition hasUseStrict :: "string \<Rightarrow> bool" where
  "hasUseStrict generatedJs =
     (sublist ([CHR 0x22] @ ''use strict'' @ [CHR 0x22]) generatedJs
      \<or> sublist ([CHR 0x27] @ ''use strict'' @ [CHR 0x27]) generatedJs)"

definition programCode :: "gen_env \<Rightarrow> string list \<Rightarrow> string" where
  "programCode env parts =
     (let generatedJs = concat parts
      in if g_addUseStrict env \<and> \<not> hasUseStrict generatedJs then useStrictPrefix @ generatedJs
         else generatedJs)"


text \<open>
  \<open>generateCode(node, skipIndent)\<close>. The texts of the prop values and of the child elements
  of an element are generated in the order of the source (props first), and the first error
  is the error of the call. \<open>generateChildren\<close> passes to each child element the
  \<open>skipElIndent\<close> of the second loop: whether the child before it, white space apart, is an
  \<open>e_child_js\<close>.
\<close>

definition isJsTokenType :: "tokenType \<Rightarrow> bool" where
  "isJsTokenType ty = (ty = JS \<or> ty = E_CHILD_JS_START \<or> ty = E_CHILD_JS_END)"

definition startsWithJsStart :: "arrayItem list \<Rightarrow> bool" where
  "startsWithJsStart items =
     (case items of ATok t # rest \<Rightarrow> tok_type t = E_CHILD_JS_START | _ \<Rightarrow> False)"

fun generateCode :: "gen_env \<Rightarrow> node \<Rightarrow> bool \<Rightarrow> error + string"
  and generateBody :: "gen_env \<Rightarrow> node list \<Rightarrow> (error + string) list"
  and generateProps :: "gen_env \<Rightarrow> elprop list \<Rightarrow> (error + string) list"
  and generatePropValue :: "gen_env \<Rightarrow> propValue \<Rightarrow> error + string"
  and generateItems :: "gen_env \<Rightarrow> arrayItem list \<Rightarrow> (error + string) list"
  and generateChildren :: "gen_env \<Rightarrow> bool \<Rightarrow> child list \<Rightarrow> (error + string) list"
where
  "generateCode env (Program body) skipIndent =
     (let parts = sequence (generateBody env body)
      in if isl parts then Inl (projl parts) else Inr (programCode env (projr parts)))"
| "generateCode env (JsNode v pos stackCount) skipIndent = Inr v"
| "generateCode env (CreateElement name isClass props children pos stackCount) skipIndent =
     (let values = sequence (generateProps env props)
      in if isl values then Inl (projl values)
         else
           (let propsJs = propsCode props (projr values) stackCount skipIndent
            in if isl propsJs then Inl (projl propsJs)
               else
                 (let codes = sequence (generateChildren env False children)
                  in if isl codes then Inl (projl codes)
                     else Inr (elementCode env name isClass stackCount skipIndent
                                 (projr propsJs) children (projr codes)))))"
| "generateBody env [] = []"
| "generateBody env (nd # nds) = generateCode env nd False # generateBody env nds"
| "generateProps env [] = []"
| "generateProps env (Prop name v pos # ps) = generatePropValue env v # generateProps env ps"
| "generatePropValue env PNull = Inr ''true''"
| "generatePropValue env (PString s) = Inr s"
| "generatePropValue env (PNode nd) = generateCode env nd True"
| "generatePropValue env (PArray items) =
     (if startsWithJsStart items then
        (let texts = sequence (generateItems env items)
         in if isl texts then Inl (projl texts) else Inr (concat (projr texts)))
      else Inl (unhandledAstType ''undefined''))"
| "generateItems env [] = []"
| "generateItems env (ATok t # items) =
     (if isJsTokenType (tok_type t) then Inr (tok_value t)
      else Inl (unhandledAstType (tokenTypeName (tok_type t)))) # generateItems env items"
| "generateItems env (ANode nd # items) = generateCode env nd True # generateItems env items"
| "generateChildren env prevJs [] = []"
| "generateChildren env prevJs (ChildElement nd p # cs) =
     generateCode env nd prevJs # generateChildren env False cs"
| "generateChildren env prevJs (ChildWhitespace v p # cs) = Inr [] # generateChildren env prevJs cs"
| "generateChildren env prevJs (ChildJs v p # cs) = Inr [] # generateChildren env True cs"
| "generateChildren env prevJs (ChildJsStart v p # cs) = Inr [] # generateChildren env False cs"
| "generateChildren env prevJs (ChildJsEnd v p # cs) = Inr [] # generateChildren env False cs"
| "generateChildren env prevJs (ChildText v p # cs) = Inr [] # generateChildren env False cs"


section \<open>The compiler\<close>

text \<open>
  The code hints \<open>// @jsx name\<close> and \<open>// @jsxFrag name\<close>: the first match of
  \<open>/(\/\/|\/\*|\/\*\*)\s+@jsx\s+([a-zA-Z.]+)/\<close> in the input, for the key word given, and
  its second group. After the lead-in the expression asks for white space, the key word, white
  space and a name; each of the two greedy \<open>\s+\<close> takes all the white space there is, and the
  name is the longest run of letters and dots.
\<close>

definition hintAfterLead :: "string \<Rightarrow> string \<Rightarrow> string option" where
  "hintAfterLead keyword rest =
     (let r1 = dropWhile isSpace rest;
          r2 = drop (length keyword) r1;
          r3 = dropWhile isSpace r2;
          name = takeWhile (\<lambda>c. isAlpha c \<or> c = CHR ''.'') r3
      in if length r1 < length rest \<and> take (length keyword) r1 = keyword
            \<and> length r3 < length r2 \<and> name \<noteq> []
         then Some name else None)"

definition hintAt :: "string \<Rightarrow> string \<Rightarrow> string option" where
  "hintAt keyword s =
     (if take 2 s = ''//'' then hintAfterLead keyword (drop 2 s)
      else if take 2 s = ''/*'' then
        (if hintAfterLead keyword (drop 2 s) \<noteq> None then hintAfterLead keyword (drop 2 s)
         else if take 3 s = ''/**'' then hintAfterLead keyword (drop 3 s)
         else None)
      else None)"

fun codeHint :: "string \<Rightarrow> string \<Rightarrow> string option" where
  "codeHint keyword [] = None"
| "codeHint keyword (c # cs) =
     (if hintAt keyword (c # cs) \<noteq> None then hintAt keyword (c # cs) else codeHint keyword cs)"

text \<open>The options of the compiler, and the decoder of HTML the host gives (see above).\<close>

record compiler_options =
  pragma :: string
  pragmaFrag :: string
  maxRecursiveCalls :: int
  addUseStrict :: bool

definition defaultOptions :: compiler_options where
  "defaultOptions = \<lparr> pragma = ''React.createElement'', pragmaFrag = ''React.Fragment'',
      maxRecursiveCalls = 1000, addUseStrict = True \<rparr>"

text \<open>\<open>for (var n = 0; n < tokenCount; n++) tokens[n].index = n\<close>.\<close>

definition stampIndex :: "token list \<Rightarrow> token list" where
  "stampIndex tokens = map (\<lambda>(n, t). t\<lparr>tok_index := Some n\<rparr>) (zip [0..<length tokens] tokens)"

definition parseFuel :: "token list \<Rightarrow> nat" where
  "parseFuel tokens = 2 * length tokens + 2"

text \<open>
  \<open>parser(tokens, input)\<close>. It writes to the tokens it is given, so the tokens after the
  call are a part of what it gives back.
\<close>

definition parserEnv :: "compiler_options \<Rightarrow> token list \<Rightarrow> string \<Rightarrow> parse_env" where
  "parserEnv opts tokens input =
     \<lparr> pe_tokens = stampIndex tokens, pe_input = input,
       pe_maxRecursiveCalls = maxRecursiveCalls opts,
       pe_pragmaFrag = (case codeHint ''@jsxFrag'' input of None \<Rightarrow> pragmaFrag opts
                        | Some name \<Rightarrow> name) \<rparr>"

definition parseStart :: parse_state where
  "parseStart = \<lparr> p_current = 0, p_callCount = 0, e_start_count = 0, e_end_count = 0 \<rparr>"

definition parserResult :: "error + parse_state \<times> walk_result \<Rightarrow> error + node" where
  "parserResult r =
     (if isl r then Inl (projl r)
      else if e_start_count (fst (projr r)) \<noteq> e_end_count (fst (projr r))
      then Inl unbalancedElements
      else Inr (Program (case snd (projr r) of RBody body \<Rightarrow> body | _ \<Rightarrow> [])))"

definition parser :: "compiler_options \<Rightarrow> token list \<Rightarrow> string \<Rightarrow> token list \<times> (error + node)" where
  "parser opts tokens input =
     (stampIndex tokens,
      parserResult (parseRun (parseFuel tokens) (parserEnv opts tokens input)
                      (ParserMain parseStart [])))"

definition generatorEnv :: "compiler_options \<Rightarrow> (string \<Rightarrow> string) \<Rightarrow> string \<Rightarrow> gen_env" where
  "generatorEnv opts decodeHtml input =
     \<lparr> g_createElement = (case codeHint ''@jsx'' input of None \<Rightarrow> pragma opts | Some name \<Rightarrow> name),
       g_addUseStrict = addUseStrict opts, g_decodeHtml = decodeHtml \<rparr>"

definition codeGenerator ::
  "compiler_options \<Rightarrow> (string \<Rightarrow> string) \<Rightarrow> node \<Rightarrow> string \<Rightarrow> error + string" where
  "codeGenerator opts decodeHtml ast input =
     generateCode (generatorEnv opts decodeHtml input) ast False"

text \<open>\<open>compile(input)\<close>.\<close>

definition compile :: "compiler_options \<Rightarrow> (string \<Rightarrow> string) \<Rightarrow> string \<Rightarrow> error + string" where
  "compile opts decodeHtml input =
     (let tokens = tokenizer (maxRecursiveCalls opts) (removeComments input) in
      if isl tokens then Inl (projl tokens)
      else
        (let ast = snd (parser opts (projr tokens) input) in
         if isl ast then Inl (projl ast)
         else codeGenerator opts decodeHtml (projr ast) input))"

section \<open>Properties of the error position\<close>

lemma splitLines_nonempty: "splitLines s \<noteq> []"
  by (induction s) auto

lemma length_splitLines: "length (splitLines s) = Suc (count_list s (CHR 0x0A))"
proof (induction s)
  case Nil
  show ?case by simp
next
  case (Cons c cs)
  have "length (tl (splitLines cs)) = count_list cs (CHR 0x0A)"
    using Cons by simp
  then show ?case using Cons by simp
qed

lemma last_splitLines: "last (splitLines s) = rev (takeWhile (\<lambda>c. c \<noteq> CHR 0x0A) (rev s))"
proof (induction s)
  case Nil
  show ?case by simp
next
  case (Cons c cs)
  show ?case
  proof (cases "CHR 0x0A \<in> set cs")
    case True
    then have tw: "takeWhile (\<lambda>c. c \<noteq> CHR 0x0A) (rev cs @ [c]) = takeWhile (\<lambda>c. c \<noteq> CHR 0x0A) (rev cs)"
      by (simp add: takeWhile_append1)
    from True have "count_list cs (CHR 0x0A) \<noteq> 0"
      by (simp add: count_list_0_iff)
    then have "tl (splitLines cs) \<noteq> []"
      using length_splitLines [of cs] by (cases "splitLines cs") auto
    then have "last (tl (splitLines cs)) = last (splitLines cs)"
      by (simp add: last_tl)
    then show ?thesis
      using Cons tw \<open>tl (splitLines cs) \<noteq> []\<close> splitLines_nonempty [of cs] by simp
  next
    case False
    then have tw: "takeWhile (\<lambda>c. c \<noteq> CHR 0x0A) (rev cs) = rev cs"
      by (auto simp: takeWhile_eq_all_conv)
    from False have "count_list cs (CHR 0x0A) = 0"
      by (simp add: count_list_0_iff)
    then have one: "length (splitLines cs) = 1"
      using length_splitLines [of cs] by simp
    then obtain l where l: "splitLines cs = [l]"
      by (cases "splitLines cs") auto
    have all: "takeWhile (\<lambda>c. c \<noteq> CHR 0x0A) (rev cs @ [c]) =
        (if c = CHR 0x0A then rev cs else rev cs @ [c])"
      using False by (subst takeWhile_append2) auto
    show ?thesis using Cons l tw all by simp
  qed
qed

lemma nth_last_splitLines: "splitLines s ! (length (splitLines s) - 1) = last (splitLines s)"
  using splitLines_nonempty [of s] by (simp add: last_conv_nth)

text \<open>
  C10. For an input and a known offset \<open>pos\<close>, the reported line number is the number of
  lines of the input up to \<open>pos\<close> (one more than the line feeds before \<open>pos\<close>), and the
  reported column is the length of the last of these lines (the text between the last line
  feed before \<open>pos\<close> and \<open>pos\<close>) minus one. For an offset at the first character of a line,
  that is at 0 or just after a line feed, the reported column is -1.
\<close>

theorem getTextPosition_line_column:
  "getTextPosition input (Some (int pos)) =
     '' at Line #: '' @ showNat (Suc (count_list (take pos input) (CHR 0x0A)))
       @ '', Column #: ''
       @ showInt (int (length (takeWhile (\<lambda>c. c \<noteq> CHR 0x0A) (rev (take pos input)))) - 1)
       @ '', Line: '' @ trim (rev (takeWhile (\<lambda>c. c \<noteq> CHR 0x0A) (rev (take pos input))))
   \<and> (pos \<le> length input \<and> (pos = 0 \<or> input ! (pos - 1) = CHR 0x0A) \<longrightarrow>
        getTextPosition input (Some (int pos)) =
          '' at Line #: '' @ showNat (Suc (count_list (take pos input) (CHR 0x0A)))
            @ '', Column #: -1, Line: '')"
proof -
  let ?t = "take pos input"
  let ?l = "rev (takeWhile (\<lambda>c. c \<noteq> CHR 0x0A) (rev ?t))"
  have gen: "getTextPosition input (Some (int pos)) =
     '' at Line #: '' @ showNat (Suc (count_list ?t (CHR 0x0A)))
       @ '', Column #: '' @ showInt (int (length ?l) - 1) @ '', Line: '' @ trim ?l"
  proof -
    have n: "splitLines ?t ! (length (splitLines ?t) - 1) = ?l"
      by (simp only: nth_last_splitLines last_splitLines)
    have c: "length (splitLines ?t) = Suc (count_list ?t (CHR 0x0A))"
      by (rule length_splitLines)
    have "getTextPosition input (Some (int pos)) =
      '' at Line #: '' @ showNat (length (splitLines ?t)) @ '', Column #: ''
        @ showInt (int (length (splitLines ?t ! (length (splitLines ?t) - 1))) - 1)
        @ '', Line: '' @ trim (splitLines ?t ! (length (splitLines ?t) - 1))"
      unfolding getTextPosition_def Let_def substring_def by simp
    then show ?thesis unfolding n unfolding c .
  qed
  have first: "?l = []" if "pos \<le> length input" "pos = 0 \<or> input ! (pos - 1) = CHR 0x0A"
  proof (cases "pos = 0")
    case True
    then show ?thesis by simp
  next
    case False
    with that have nl: "input ! (pos - 1) = CHR 0x0A" by simp
    from False that(1) have "?t \<noteq> []" by auto
    moreover have "last ?t = input ! (pos - 1)"
    proof -
      have len: "length ?t = pos" using that(1) by simp
      have "last ?t = ?t ! (pos - 1)"
        using \<open>?t \<noteq> []\<close> len by (simp add: last_conv_nth)
      also have "\<dots> = input ! (pos - 1)"
        using False by (intro nth_take) simp
      finally show ?thesis .
    qed
    ultimately have "hd (rev ?t) = CHR 0x0A" "rev ?t \<noteq> []"
      using nl by (simp_all add: hd_rev)
    then have "takeWhile (\<lambda>c. c \<noteq> CHR 0x0A) (rev ?t) = []"
      by (cases "rev ?t") auto
    then show ?thesis by simp
  qed
  have m1: "showInt (- 1) = ''-1''"
    by (simp add: showInt_def showNat.simps digitChar_def)
  have tr: "trim [] = []"
    by (simp add: trim_def trimEnd_def trimStart_def)
  show ?thesis
  proof (intro conjI impI)
    show "getTextPosition input (Some (int pos)) =
     '' at Line #: '' @ showNat (Suc (count_list ?t (CHR 0x0A)))
       @ '', Column #: ''
       @ showInt (int (length (takeWhile (\<lambda>c. c \<noteq> CHR 0x0A) (rev ?t))) - 1)
       @ '', Line: '' @ trim ?l"
      using gen by simp
  next
    assume a: "pos \<le> length input \<and> (pos = 0 \<or> input ! (pos - 1) = CHR 0x0A)"
    then have e: "?l = []" using first by blast
    then have e': "takeWhile (\<lambda>c. c \<noteq> CHR 0x0A) (rev ?t) = []" by simp
    show "getTextPosition input (Some (int pos)) =
          '' at Line #: '' @ showNat (Suc (count_list ?t (CHR 0x0A)))
            @ '', Column #: -1, Line: ''"
      unfolding gen e' by (simp add: m1 tr)
  qed
qed

theorem getTextPosition_line_column_witness:
  "getTextPosition ''ab\<newline>cd'' (Some 3) = '' at Line #: 2, Column #: -1, Line: ''"
proof -
  have h: "(3::nat) \<le> length ''ab\<newline>cd'' \<and> ((3::nat) = 0 \<or> ''ab\<newline>cd'' ! (3 - 1) = CHR 0x0A)"
    by simp
  have s: "showNat (Suc (count_list (take 3 ''ab\<newline>cd'') (CHR 0x0A))) = ''2''"
    by (simp add: showNat.simps digitChar_def)
  from getTextPosition_line_column [of "''ab\<newline>cd''" 3] h
  have "getTextPosition ''ab\<newline>cd'' (Some (int 3)) =
          '' at Line #: '' @ showNat (Suc (count_list (take 3 ''ab\<newline>cd'') (CHR 0x0A)))
            @ '', Column #: -1, Line: ''"
    by blast
  then show ?thesis unfolding s by simp
qed

section \<open>Properties of the comment remover\<close>

lemma rc_body_length:
  "rc_body input st current newInput = (st', current', ch, newInput') \<Longrightarrow>
   current < length input \<Longrightarrow> length newInput = length input \<Longrightarrow>
   length newInput' = length input"
  unfolding rc_body_def Let_def rc_peekNext_def rc_peekNext2_def arraySet_def
  by (auto split: if_splits)

lemma rc_body_before:
  "rc_body input st current newInput = (st', current', ch, newInput') \<Longrightarrow>
   current < length input \<Longrightarrow> length newInput = length input \<Longrightarrow> i < current \<Longrightarrow>
   newInput' ! i = newInput ! i"
  unfolding rc_body_def Let_def rc_peekNext_def rc_peekNext2_def arraySet_def
  by (auto split: if_splits)

lemma rc_body_char:
  "rc_body input st current newInput = (st', current', ch, newInput') \<Longrightarrow>
   current < length input \<Longrightarrow>
   ch = blank (rc_inComment st \<or> rc_inComment st') (input ! current')"
  unfolding rc_body_def Let_def rc_peekNext_def rc_peekNext2_def blank_def rc_inComment_def
  by (auto split: if_splits)

lemma rc_body_skipped:
  "rc_body input st current newInput = (st', current', ch, newInput') \<Longrightarrow>
   current < length input \<Longrightarrow> length newInput = length input \<Longrightarrow>
   current \<le> i \<Longrightarrow> i < current' \<Longrightarrow>
   newInput' ! i = Some (blank (rc_inComment st \<or> rc_inComment st') (input ! i))"
  unfolding rc_body_def Let_def rc_peekNext_def rc_peekNext2_def blank_def rc_inComment_def arraySet_def
  by (auto split: if_splits simp: nth_list_update less_Suc_eq)


lemma rc_loop_spec:
  "length newInput = length input \<Longrightarrow> current \<le> length input \<Longrightarrow>
   length (rc_loop input st current newInput) = length input \<and>
   length (rc_regions input st current newInput) = length input - current \<and>
   (\<forall>i<length input. rc_loop input st current newInput ! i =
      (if i < current then newInput ! i
       else Some (blank (rc_regions input st current newInput ! (i - current)) (input ! i))))"
proof (induction input st current newInput rule: rc_loop.induct)
  case (1 input st current newInput)
  show ?case
  proof (cases "current < length input")
    case False
    have e1: "rc_loop input st current newInput = newInput"
      using False by (subst rc_loop.simps) simp
    have e2: "rc_regions input st current newInput = []"
      using False by (subst rc_regions.simps) simp
    show ?thesis
      unfolding e1 e2 using False "1.prems" by simp
  next
    case True
    obtain st' current' ch newInput' where
      b: "rc_body input st current newInput = (st', current', ch, newInput')"
      by (cases "rc_body input st current newInput") auto
    let ?m = "rc_inComment st \<or> rc_inComment st'"
    let ?A = "arraySet newInput' current' ch"
    have le: "current \<le> current'" by (rule rc_body_current [OF b])
    have lt: "current' < length input" by (rule rc_body_bound [OF b True])
    have len': "length newInput' = length input"
      by (rule rc_body_length [OF b True "1.prems"(1)])
    have lenA: "length ?A = length input"
      using len' lt by (simp add: arraySet_def)
    have ch: "ch = blank ?m (input ! current')" by (rule rc_body_char [OF b True])
    have A_at: "?A ! current' = Some ch" using len' lt by (simp add: arraySet_def)
    have A_other: "?A ! i = newInput' ! i" if "i \<noteq> current'" for i
      using that len' lt by (simp add: arraySet_def)
    have loop: "rc_loop input st current newInput = rc_loop input st' (current' + 1) ?A"
      using True b by (subst rc_loop.simps) simp
    have reg: "rc_regions input st current newInput =
        replicate (current' - current + 1) ?m @ rc_regions input st' (current' + 1) ?A"
      using True b by (subst rc_regions.simps) simp
    have IH: "length (rc_loop input st' (current' + 1) ?A) = length input \<and>
       length (rc_regions input st' (current' + 1) ?A) = length input - (current' + 1) \<and>
       (\<forall>i<length input. rc_loop input st' (current' + 1) ?A ! i =
          (if i < current' + 1 then ?A ! i
           else Some (blank (rc_regions input st' (current' + 1) ?A ! (i - (current' + 1))) (input ! i))))"
      using "1.IH" [OF True b [symmetric] refl refl lenA] lt by simp
    have reg_lo: "rc_regions input st current newInput ! (i - current) = ?m"
      if "current \<le> i" "i \<le> current'" for i
    proof -
      have "i - current < Suc (current' - current)" using that by linarith
      then show ?thesis
        unfolding reg by (simp add: nth_append del: replicate.simps)
    qed
    have reg_hi: "rc_regions input st current newInput ! (i - current) =
        rc_regions input st' (current' + 1) ?A ! (i - (current' + 1))"
      if "current' < i" for i
    proof -
      have d: "i - current - (current' - current + 1) = i - (current' + 1)"
        using that le by linarith
      have g: "length (replicate (current' - current + 1) ?m) \<le> i - current"
        using that le by simp
      show ?thesis
        unfolding reg nth_append_right [OF g] length_replicate d ..
    qed
    have l1: "length (rc_loop input st current newInput) = length input"
      using IH loop by simp
    have l2: "length (rc_regions input st current newInput) = length input - current"
      using IH reg le lt by simp
    have l3: "rc_loop input st current newInput ! i =
      (if i < current then newInput ! i
       else Some (blank (rc_regions input st current newInput ! (i - current)) (input ! i)))"
      if i: "i < length input" for i
    proof -
      consider "i < current" | "current \<le> i" "i < current'" | "i = current'" | "current' < i"
        by linarith
      then show ?thesis
      proof cases
        case 1
        then have "rc_loop input st current newInput ! i = ?A ! i"
          using IH loop i le by simp
        also have "\<dots> = newInput' ! i" using 1 le by (intro A_other) simp
        also have "\<dots> = newInput ! i"
          by (rule rc_body_before [OF b True "1.prems"(1) 1])
        finally show ?thesis using 1 by simp
      next
        case 2
        then have "rc_loop input st current newInput ! i = ?A ! i"
          using IH loop i by simp
        also have "\<dots> = newInput' ! i" using 2 by (intro A_other) simp
        also have "\<dots> = Some (blank ?m (input ! i))"
          by (rule rc_body_skipped [OF b True "1.prems"(1) 2])
        finally show ?thesis using 2 reg_lo [of i] by simp
      next
        case 3
        then have "rc_loop input st current newInput ! i = ?A ! i"
          using IH loop i by simp
        also have "\<dots> = Some (blank ?m (input ! i))" using 3 A_at ch by simp
        finally show ?thesis using 3 reg_lo [of i] le by simp
      next
        case 4
        then have "rc_loop input st current newInput ! i =
            Some (blank (rc_regions input st' (current' + 1) ?A ! (i - (current' + 1))) (input ! i))"
          using IH loop i by simp
        then show ?thesis using 4 le reg_hi [of i] by simp
      qed
    qed
    show ?thesis using l1 l2 l3 by blast
  qed
qed

lemma arrayJoin_Some: "arrayJoin (map Some xs) = xs"
  by (induction xs) (simp_all add: arrayJoin_def)

lemma removeComments_pointwise:
  "length (removeComments s) = length s \<and> length (commentRegion s) = length s \<and>
   (\<forall>i<length s. removeComments s ! i = blank (commentRegion s ! i) (s ! i))"
proof -
  let ?A = "rc_loop s rc_init 0 (replicate (length s) None)"
  let ?R = "rc_regions s rc_init 0 (replicate (length s) None)"
  have spec: "length ?A = length s \<and> length ?R = length s - 0 \<and>
     (\<forall>i<length s. ?A ! i =
        (if i < 0 then replicate (length s) None ! i else Some (blank (?R ! (i - 0)) (s ! i))))"
    by (rule rc_loop_spec) simp_all
  then have len: "length ?A = length s" and lenR: "length ?R = length s"
    and at: "\<And>i. i < length s \<Longrightarrow> ?A ! i = Some (blank (?R ! i) (s ! i))"
    by simp_all
  have "?A = map Some (map (\<lambda>i. blank (?R ! i) (s ! i)) [0..<length s])"
    using len at by (intro nth_equalityI) simp_all
  then have out: "removeComments s = map (\<lambda>i. blank (?R ! i) (s ! i)) [0..<length s]"
    unfolding removeComments_def by (simp only: arrayJoin_Some)
  show ?thesis
    unfolding commentRegion_def using out lenR by simp
qed




section \<open>Properties of the compiler on inputs without elements\<close>

lemma removeComments_set: "set (removeComments s) \<subseteq> set s \<union> {CHR '' ''}"
proof
  fix c assume "c \<in> set (removeComments s)"
  then obtain i where i: "i < length (removeComments s)" and c: "c = removeComments s ! i"
    by (auto simp: in_set_conv_nth)
  from removeComments_pointwise [of s] i c
  have "i < length s" "c = blank (commentRegion s ! i) (s ! i)" by auto
  then show "c \<in> set s \<union> {CHR '' ''}"
    by (auto simp: blank_def)
qed

lemma nextElementPos_loop_none:
  "CHR ''<'' \<notin> set t \<Longrightarrow> nextElementPos_loop t c st = None"
proof (induction t c st rule: nextElementPos_loop.induct)
  case (1 input c st)
  show ?case
  proof (cases "c + 1 < length input")
    case False
    then show ?thesis by (subst nextElementPos_loop.simps) simp
  next
    case True
    then have "input ! c \<in> set input" by simp
    then have ne: "input ! c \<noteq> CHR ''<''" using "1.prems" by auto
    show ?thesis
      apply (subst nextElementPos_loop.simps)
      using True ne "1.IH" "1.prems" by auto
  qed
qed

lemma nextElementPos_none: "CHR ''<'' \<notin> set t \<Longrightarrow> nextElementPos t c = None"
  by (simp add: nextElementPos_def nextElementPos_loop_none)

lemma lexFuel_Suc: "lexFuel t = Suc (5 * length t + 9)"
  by (simp add: lexFuel_def)

lemma tokenizer_no_element:
  assumes "nextElementPos t 0 = None"
  shows "tokenizer m t = Inr (if t = [] then [] else [mkToken JS t (Some 0)])"
proof (cases "t = []")
  case True
  show ?thesis
    unfolding tokenizer_def lexFuel_Suc
    by (subst lexRun.simps) (simp add: True)
next
  case False
  then have "\<not> 1 > int (length t)" by (cases t) auto
  then show ?thesis
    unfolding tokenizer_def lexFuel_Suc
    using False assms
    by (subst lexRun.simps) (simp add: loopLimit_def pushToken_def substring_def tick_def)
qed


lemma parser_empty: "snd (parser opts [] input) = Inr (Program [])"
  by (simp add: parser_def parseFuel_def parserResult_def parserEnv_def stampIndex_def
      parseStart_def eval_nat_numeral)

lemma parser_single_js:
  assumes "1 \<le> maxRecursiveCalls opts"
  shows "snd (parser opts [mkToken JS t p] input) = Inr (Program [JsNode t p 0])"
  using assms
  by (simp add: parser_def parseFuel_def parserResult_def parserEnv_def stampIndex_def
      parseStart_def eval_nat_numeral mkToken_def advance_def theNode_def)

lemma generate_single_js:
  "generateCode env (Program [JsNode t p k]) skip = Inr (programCode env [t])"
  by simp

lemma generate_empty: "generateCode env (Program []) skip = Inr (programCode env [])"
  by simp

lemma compile_no_element:
  assumes "nextElementPos (removeComments s) 0 = None" and "1 \<le> maxRecursiveCalls opts"
  shows "compile opts decodeHtml s =
     Inr ((if addUseStrict opts \<and> \<not> hasUseStrict (removeComments s) then useStrictPrefix else [])
          @ removeComments s)"
proof (cases "removeComments s = []")
  case True
  then show ?thesis
    using tokenizer_no_element [OF assms(1), of "maxRecursiveCalls opts"]
    by (simp add: compile_def parser_empty codeGenerator_def programCode_def generatorEnv_def Let_def)
next
  case False
  then show ?thesis
    using tokenizer_no_element [OF assms(1), of "maxRecursiveCalls opts"] assms(2)
    by (simp add: compile_def parser_single_js codeGenerator_def programCode_def generatorEnv_def Let_def)
qed


text \<open>
  C1, as amended. \<open>compile\<close> removes the comments first, so its output is made from the
  input with every comment blanked, not from the input itself. For an input in whose blanked
  text the tokenizer finds no start of an element (so, for every input without any \<open>&lt;\<close>),
  and with at least one call of \<open>walk\<close> allowed, \<open>compile\<close> gives the blanked text, with
  the strict-mode line in front of it if and only if \<open>addUseStrict\<close> is set and the blanked text
  has no \<open>use strict\<close> in double or single quotes.
\<close>

theorem compile_without_elements:
  "1 \<le> maxRecursiveCalls opts \<Longrightarrow>
   (nextElementPos (removeComments s) 0 = None \<longrightarrow>
      compile opts decodeHtml s =
        Inr ((if addUseStrict opts \<and> \<not> hasUseStrict (removeComments s) then useStrictPrefix else [])
             @ removeComments s)) \<and>
   (CHR ''<'' \<notin> set s \<longrightarrow>
      compile opts decodeHtml s =
        Inr ((if addUseStrict opts \<and> \<not> hasUseStrict (removeComments s) then useStrictPrefix else [])
             @ removeComments s))"
proof (intro conjI impI)
  assume m: "1 \<le> maxRecursiveCalls opts" and n: "nextElementPos (removeComments s) 0 = None"
  show "compile opts decodeHtml s =
        Inr ((if addUseStrict opts \<and> \<not> hasUseStrict (removeComments s) then useStrictPrefix else [])
             @ removeComments s)"
    by (rule compile_no_element [OF n m])
next
  assume m: "1 \<le> maxRecursiveCalls opts" and l: "CHR ''<'' \<notin> set s"
  have "CHR ''<'' \<notin> set (removeComments s)"
    using removeComments_set [of s] l by auto
  then have n: "nextElementPos (removeComments s) 0 = None"
    by (rule nextElementPos_none)
  show "compile opts decodeHtml s =
        Inr ((if addUseStrict opts \<and> \<not> hasUseStrict (removeComments s) then useStrictPrefix else [])
             @ removeComments s)"
    by (rule compile_no_element [OF n m])
qed

theorem compile_without_elements_witness:
  "compile defaultOptions id ''//a'' = Inr (useStrictPrefix @ ''   '')"
proof -
  have m: "1 \<le> maxRecursiveCalls defaultOptions" by (simp add: defaultOptions_def)
  have l: "CHR ''<'' \<notin> set ''//a''" by simp
  have r: "removeComments ''//a'' = ''   ''" by code_simp
  have u: "\<not> hasUseStrict ''   ''" by code_simp
  have a: "addUseStrict defaultOptions" by (simp add: defaultOptions_def)
  from compile_without_elements [OF m, of "''//a''" id] l
  have "compile defaultOptions id ''//a'' =
        Inr ((if addUseStrict defaultOptions \<and> \<not> hasUseStrict (removeComments ''//a'')
              then useStrictPrefix else []) @ removeComments ''//a'')"
    by blast
  then show ?thesis unfolding r using u a by simp
qed

theorem compile_identity_counterexample:
  "CHR ''<'' \<notin> set ''//a'' \<and>
   compile defaultOptions id ''//a'' = Inr (useStrictPrefix @ ''   '') \<and>
   compile defaultOptions id ''//a'' \<noteq> Inr ''//a'' \<and>
   compile defaultOptions id ''//a'' \<noteq> Inr (useStrictPrefix @ ''//a'')"
  by code_simp

section \<open>Properties of the strict-mode prefix\<close>

lemma parser_gives_program:
  "snd (parser opts tokens input) = Inr ast \<Longrightarrow> \<exists>body. ast = Program body"
  by (auto simp: parser_def parserResult_def split: if_splits)

lemma hasUseStrict_prefix: "hasUseStrict (useStrictPrefix @ x)"
proof -
  have "sublist ([CHR 0x22] @ ''use strict'' @ [CHR 0x22])
          ([] @ ([CHR 0x22] @ ''use strict'' @ [CHR 0x22]) @ ('';'' @ [CHR 0x0A] @ x))"
    by (rule sublist_appendI)
  then show ?thesis
    by (simp add: hasUseStrict_def useStrictPrefix_def)
qed

lemma generate_program:
  "sequence (generateBody env body) = Inr parts \<Longrightarrow>
   generateCode env (Program body) skip =
     Inr (if g_addUseStrict env \<and> \<not> hasUseStrict (concat parts)
          then useStrictPrefix @ concat parts else concat parts)"
  by (simp add: programCode_def Let_def)

lemma generate_program_strict:
  assumes "g_addUseStrict env" and "generateCode env (Program body) skip = Inr out"
  shows "hasUseStrict out"
proof (cases "sequence (generateBody env body)")
  case (Inl e)
  then show ?thesis using assms(2) by (simp add: Let_def)
next
  case (Inr parts)
  from generate_program [OF Inr, of skip] assms
  show ?thesis by (auto simp: hasUseStrict_prefix split: if_splits)
qed

text \<open>
  C3, as amended. The code generator puts the strict-mode line in front of the generated text
  if and only if \<open>addUseStrict\<close> is set and the generated text contains neither
  \<open>"use strict"\<close> nor \<open>'use strict'\<close>. So with \<open>addUseStrict\<close> set every output of \<open>compile\<close>
  contains \<open>use strict\<close> in double or in single quotes, and with \<open>addUseStrict\<close> off the output
  is the generated text with nothing added: a directive of the input is in the output only if
  it is still in the generated text (one inside a comment is not).
\<close>

theorem use_strict_prefix:
  "(sequence (generateBody env body) = Inr parts \<longrightarrow>
      generateCode env (Program body) skip =
        Inr (if g_addUseStrict env \<and> \<not> hasUseStrict (concat parts)
             then useStrictPrefix @ concat parts else concat parts)) \<and>
   (addUseStrict opts \<and> compile opts decodeHtml s = Inr out \<longrightarrow> hasUseStrict out)"
proof (intro conjI impI)
  assume "sequence (generateBody env body) = Inr parts"
  then show "generateCode env (Program body) skip =
        Inr (if g_addUseStrict env \<and> \<not> hasUseStrict (concat parts)
             then useStrictPrefix @ concat parts else concat parts)"
    by (rule generate_program)
next
  assume a: "addUseStrict opts \<and> compile opts decodeHtml s = Inr out"
  let ?toks = "tokenizer (maxRecursiveCalls opts) (removeComments s)"
  from a have c: "compile opts decodeHtml s = Inr out" by simp
  from c obtain toks where t: "?toks = Inr toks"
    by (cases ?toks) (simp_all add: compile_def Let_def)
  from c t obtain ast where p: "snd (parser opts toks s) = Inr ast"
    by (cases "snd (parser opts toks s)") (simp_all add: compile_def Let_def)
  from parser_gives_program [OF p] obtain body where b: "ast = Program body" by blast
  from c t p b have g: "generateCode (generatorEnv opts decodeHtml s) (Program body) False = Inr out"
    by (simp add: compile_def Let_def codeGenerator_def)
  have "g_addUseStrict (generatorEnv opts decodeHtml s)"
    using a by (simp add: generatorEnv_def)
  then show "hasUseStrict out"
    using g by (rule generate_program_strict)
qed

theorem use_strict_prefix_witness:
  "generateCode \<lparr> g_createElement = ''h'', g_addUseStrict = True, g_decodeHtml = id \<rparr>
     (Program [JsNode ''a'' None 0]) False = Inr (useStrictPrefix @ ''a'') \<and>
   hasUseStrict (useStrictPrefix @ ''abc'')"
proof -
  let ?env = "\<lparr> g_createElement = ''h'', g_addUseStrict = True, g_decodeHtml = id \<rparr>"
  have s: "sequence (generateBody ?env [JsNode ''a'' None 0]) = Inr [''a'']" by simp
  have n: "\<not> hasUseStrict (concat [''a''])" by code_simp
  have c: "compile defaultOptions id ''abc'' = Inr (useStrictPrefix @ ''abc'')" by code_simp
  have a: "addUseStrict defaultOptions" by (simp add: defaultOptions_def)
  note t = use_strict_prefix [of ?env "[JsNode ''a'' None 0]" "[''a'']" False defaultOptions id
      "''abc''" "useStrictPrefix @ ''abc''"]
  from t s have "generateCode ?env (Program [JsNode ''a'' None 0]) False =
        Inr (if g_addUseStrict ?env \<and> \<not> hasUseStrict (concat [''a''])
             then useStrictPrefix @ concat [''a''] else concat [''a''])"
    by blast
  then have g: "generateCode ?env (Program [JsNode ''a'' None 0]) False = Inr (useStrictPrefix @ ''a'')"
    using n by simp
  from t a c have h: "hasUseStrict (useStrictPrefix @ ''abc'')" by blast
  show ?thesis using g h by blast
qed

theorem use_strict_iff_counterexample:
  "sublist ([CHR 0x22] @ ''use strict'' @ [CHR 0x22]) (''//'' @ [CHR 0x22] @ ''use strict'' @ [CHR 0x22]) \<and>
   compile (defaultOptions\<lparr>addUseStrict := False\<rparr>) id (''//'' @ [CHR 0x22] @ ''use strict'' @ [CHR 0x22])
     = Inr (replicate 14 (CHR '' '')) \<and>
   \<not> sublist ''use strict'' (replicate 14 (CHR '' ''))"
  by code_simp

section \<open>Properties of the parser\<close>



section \<open>Properties of the counters of the parser\<close>

text \<open>The tokens of one type among the first \<open>k\<close> tokens.\<close>

definition typeCount :: "tokenType \<Rightarrow> token list \<Rightarrow> nat \<Rightarrow> int" where
  "typeCount ty toks k = int (count_list (map tok_type (take k toks)) ty)"

definition taskState :: "parse_task \<Rightarrow> parse_state" where
  "taskState t = (case t of Walk ps sc sj \<Rightarrow> ps | ElementLoop ps el \<Rightarrow> ps
     | JsChildLoop ps sc nodes tok \<Rightarrow> ps | ParserMain ps body \<Rightarrow> ps)"

definition isMain :: "parse_task \<Rightarrow> bool" where
  "isMain t = (case t of ParserMain ps body \<Rightarrow> True | _ \<Rightarrow> False)"

text \<open>
  What every step of the parser keeps: the counters of \<open>E_START\<close> and \<open>E_END\<close> grow by the
  number of such tokens that \<open>current\<close> passes.
\<close>

definition counted :: "token list \<Rightarrow> parse_state \<Rightarrow> parse_state \<Rightarrow> bool" where
  "counted toks ps ps' =
     (p_current ps \<le> p_current ps' \<and> p_current ps' \<le> length toks \<and>
      e_start_count ps' - typeCount E_START toks (p_current ps')
        = e_start_count ps - typeCount E_START toks (p_current ps) \<and>
      e_end_count ps' - typeCount E_END toks (p_current ps')
        = e_end_count ps - typeCount E_END toks (p_current ps))"

lemma counted_refl: "p_current ps \<le> length toks \<Longrightarrow> counted toks ps ps"
  by (simp add: counted_def)

lemma counted_trans: "counted toks a b \<Longrightarrow> counted toks b c \<Longrightarrow> counted toks a c"
  by (simp add: counted_def)

lemma typeCount_Suc:
  "k < length toks \<Longrightarrow>
   typeCount ty toks (Suc k) = typeCount ty toks k + (if tok_type (toks ! k) = ty then 1 else 0)"
  by (simp add: typeCount_def take_Suc_conv_app_nth)

lemma counted_advance:
  assumes "p_current ps < length toks"
    and "p_current ps' = p_current ps + 1"
    and "e_start_count ps' =
           e_start_count ps + (if tok_type (toks ! p_current ps) = E_START then 1 else 0)"
    and "e_end_count ps' =
           e_end_count ps + (if tok_type (toks ! p_current ps) = E_END then 1 else 0)"
  shows "counted toks ps ps'"
  using assms by (simp add: counted_def typeCount_Suc)

lemma seq_result:
  assumes "(let r = A in if isl r then r else B (fst (projr r)) (snd (projr r))) = Inr x"
  obtains ps1 r1 where "A = Inr (ps1, r1)" and "B ps1 r1 = Inr x"
  using assms by (cases A) (auto simp: Let_def)


lemma counted_step:
  assumes "p_current ps < length toks"
    and "tok_type (toks ! p_current ps) \<noteq> E_START" and "tok_type (toks ! p_current ps) \<noteq> E_END"
  shows "counted toks ps (advance ps)" and "counted toks ps (advance (ps\<lparr>p_callCount := c\<rparr>))"
  using assms by (simp_all add: counted_def typeCount_Suc advance_def)

lemma counted_start:
  assumes "p_current ps < length toks" and "tok_type (toks ! p_current ps) = E_START"
  shows "counted toks ps
           ((advance (ps\<lparr>p_callCount := c\<rparr>))\<lparr>e_start_count :=
               e_start_count (advance (ps\<lparr>p_callCount := c\<rparr>)) + 1\<rparr>)"
  using assms by (simp add: counted_def typeCount_Suc advance_def)

lemma counted_end:
  assumes "p_current ps < length toks" and "tok_type (toks ! p_current ps) = E_END"
  shows "counted toks ps ((advance ps)\<lparr>e_end_count := e_end_count (advance ps) + 1\<rparr>)"
  using assms by (simp add: counted_def typeCount_Suc advance_def)

lemma counted_bound: "counted toks ps ps' \<Longrightarrow> p_current ps' \<le> length toks"
  by (simp add: counted_def)

lemma parseRun_counted:
  "parseRun n env task = Inr (ps', r) \<Longrightarrow>
   p_current (taskState task) \<le> length (pe_tokens env) \<Longrightarrow>
   counted (pe_tokens env) (taskState task) ps' \<and>
   (isMain task \<longrightarrow> p_current ps' = length (pe_tokens env))"
proof (induction n arbitrary: task ps' r)
  case 0
  then show ?case by simp
next
  case (Suc n)
  let ?toks = "pe_tokens env"
  have IH: "counted ?toks (taskState t) q \<and> (isMain t \<longrightarrow> p_current q = length ?toks)"
    if "parseRun n env t = Inr (q, x)" "p_current (taskState t) \<le> length ?toks" for t q x
    using Suc.IH that by blast
  show ?case
  proof (cases task)
    case (ParserMain ps body)
    show ?thesis
    proof (cases "p_current ps < length ?toks")
      case False
      then show ?thesis
        using Suc.prems ParserMain by (auto simp: taskState_def isMain_def counted_refl)
    next
      case True
      from Suc.prems(1) ParserMain True
      have "(let r = parseRun n env (Walk ps 0 False) in
             if isl r then r
             else (\<lambda>p1 r1. parseRun n env (ParserMain p1 (body @ [theNode r1])))
                    (fst (projr r)) (snd (projr r))) = Inr (ps', r)"
        by simp
      then obtain ps1 r1 where
        w: "parseRun n env (Walk ps 0 False) = Inr (ps1, r1)" and
        m: "parseRun n env (ParserMain ps1 (body @ [theNode r1])) = Inr (ps', r)"
        by (rule seq_result)
      from IH [OF w] True have c1: "counted ?toks ps ps1" by (simp add: taskState_def)
      from IH [OF m] counted_bound [OF c1]
      have c2: "counted ?toks ps1 ps'" and e: "p_current ps' = length ?toks"
        by (simp_all add: taskState_def isMain_def)
      show ?thesis
        using counted_trans [OF c1 c2] e ParserMain by (simp add: taskState_def)
    qed
  next
    case (Walk ps0 sc sj)
    let ?tok = "?toks ! p_current ps0"
    let ?ps = "advance (ps0\<lparr>p_callCount := p_callCount ps0 + 1\<rparr>)"
    from Suc.prems(1) Walk have lt: "p_current ps0 < length ?toks"
      by (auto split: if_splits)
    have b: "p_current ?ps \<le> length ?toks" using lt by (simp add: advance_def)
    from Suc.prems(1) Walk lt consider
        (js) "tok_type ?tok = JS" "ps' = ?ps"
      | (st) eln where "tok_type ?tok = E_START"
          "parseRun n env (ElementLoop (?ps\<lparr>e_start_count := e_start_count ?ps + 1\<rparr>) eln)
            = Inr (ps', r)"
      | (cj) "tok_type ?tok = E_CHILD_JS_START"
          "parseRun n env (JsChildLoop ?ps sc [ATok ?tok] ?tok) = Inr (ps', r)"
      by (auto simp: Let_def split: if_splits)
    then have "counted ?toks ps0 ps'"
    proof cases
      case js
      then show ?thesis using counted_step(2) [OF lt, of "p_callCount ps0 + 1"] by simp
    next
      case st
      have c1: "counted ?toks ps0 (?ps\<lparr>e_start_count := e_start_count ?ps + 1\<rparr>)"
        using counted_start [OF lt st(1)] by simp
      from IH [OF st(2)] b have c2: "counted ?toks (?ps\<lparr>e_start_count := e_start_count ?ps + 1\<rparr>) ps'"
        by (simp add: taskState_def advance_def)
      show ?thesis by (rule counted_trans [OF c1 c2])
    next
      case cj
      have c1: "counted ?toks ps0 ?ps"
        using counted_step(2) [OF lt, of "p_callCount ps0 + 1"] cj(1) by simp
      from IH [OF cj(2)] b have c2: "counted ?toks ?ps ps'"
        by (simp add: taskState_def)
      show ?thesis by (rule counted_trans [OF c1 c2])
    qed
    then show ?thesis using Walk by (simp add: taskState_def isMain_def)
  next
    case (ElementLoop ps0 el)
    let ?tok = "?toks ! p_current ps0"
    let ?ps = "advance ps0"
    show ?thesis
    proof (cases "p_current ps0 < length ?toks")
      case False
      then show ?thesis
        using Suc.prems ElementLoop by (auto simp: taskState_def isMain_def counted_refl)
    next
      case lt: True
      have b: "p_current ?ps \<le> length ?toks" using lt by (simp add: advance_def)
      from Suc.prems(1) ElementLoop lt consider
          (pv) eln where "tok_type ?tok = E_PROP"
            "nextTokenType env ?ps = Some E_VALUE \<or> nextTokenType env ?ps = Some JS"
            "parseRun n env (ElementLoop (advance ?ps) eln) = Inr (ps', r)"
        | (pe) "tok_type ?tok = E_PROP"
            "(let r = parseRun n env (Walk ?ps (el_stackCount el + 1) False) in
               if isl r then r
               else (\<lambda>p1 r1. parseRun n env
                      (ElementLoop p1 (addProp el ?tok (PNode (theNode r1)))))
                      (fst (projr r)) (snd (projr r))) = Inr (ps', r)"
        | (pj) "tok_type ?tok = E_PROP"
            "(let r = parseRun n env (Walk ?ps (el_stackCount el + 1) True) in
               if isl r then r
               else (\<lambda>p1 r1. parseRun n env
                      (ElementLoop p1
                         (addProp el ?tok
                            (case r1 of RArray a \<Rightarrow> PArray a
                             | RNode nd \<Rightarrow> PNode nd | RBody b \<Rightarrow> PNull))))
                      (fst (projr r)) (snd (projr r))) = Inr (ps', r)"
        | (other) eln where "tok_type ?tok \<noteq> E_START" "tok_type ?tok \<noteq> E_END"
            "parseRun n env (ElementLoop ?ps eln) = Inr (ps', r)"
        | (en) "tok_type ?tok = E_END" "ps' = ?ps\<lparr>e_end_count := e_end_count ?ps + 1\<rparr>"
        | (st) "tok_type ?tok = E_START"
            "(let r = parseRun n env (Walk ps0 (el_stackCount el + 1) False) in
               if isl r then r
               else (\<lambda>p1 r1. parseRun n env
                      (ElementLoop p1 (addChild1 el (ChildElement (theNode r1) (tok_pos ?tok)))))
                      (fst (projr r)) (snd (projr r))) = Inr (ps', r)"
        by (simp add: Let_def split: if_splits)
      then have "counted ?toks ps0 ps'"
      proof cases
        case pv
        from pv(2) have lt2: "p_current ?ps < length ?toks"
          and ty: "tok_type (?toks ! p_current ?ps) \<noteq> E_START"
                  "tok_type (?toks ! p_current ?ps) \<noteq> E_END"
          by (auto simp: nextTokenType_def split: if_splits)
        have c1: "counted ?toks ps0 ?ps" using counted_step(1) [OF lt] pv(1) by simp
        have c2: "counted ?toks ?ps (advance ?ps)" by (rule counted_step(1) [OF lt2 ty])
        from IH [OF pv(3)] lt2 have c3: "counted ?toks (advance ?ps) ps'"
          by (simp add: taskState_def advance_def)
        show ?thesis by (rule counted_trans [OF counted_trans [OF c1 c2] c3])
      next
        case pe
        have c0: "counted ?toks ps0 ?ps" using counted_step(1) [OF lt] pe(1) by simp
        from pe(2) obtain ps1 r1 eln where
          w: "parseRun n env (Walk ?ps (el_stackCount el + 1) False) = Inr (ps1, r1)" and
          m: "parseRun n env (ElementLoop ps1 eln) = Inr (ps', r)"
          by (rule seq_result)
        from IH [OF w] b have c1: "counted ?toks ?ps ps1" by (simp add: taskState_def)
        from IH [OF m] counted_bound [OF c1] have c2: "counted ?toks ps1 ps'"
          by (simp add: taskState_def)
        show ?thesis by (rule counted_trans [OF counted_trans [OF c0 c1] c2])
      next
        case pj
        have c0: "counted ?toks ps0 ?ps" using counted_step(1) [OF lt] pj(1) by simp
        from pj(2) obtain ps1 r1 eln where
          w: "parseRun n env (Walk ?ps (el_stackCount el + 1) True) = Inr (ps1, r1)" and
          m: "parseRun n env (ElementLoop ps1 eln) = Inr (ps', r)"
          by (rule seq_result)
        from IH [OF w] b have c1: "counted ?toks ?ps ps1" by (simp add: taskState_def)
        from IH [OF m] counted_bound [OF c1] have c2: "counted ?toks ps1 ps'"
          by (simp add: taskState_def)
        show ?thesis by (rule counted_trans [OF counted_trans [OF c0 c1] c2])
      next
        case other
        have c0: "counted ?toks ps0 ?ps" by (rule counted_step(1) [OF lt other(1,2)])
        from IH [OF other(3)] b have c1: "counted ?toks ?ps ps'" by (simp add: taskState_def)
        show ?thesis by (rule counted_trans [OF c0 c1])
      next
        case en
        then show ?thesis using counted_end [OF lt en(1)] by simp
      next
        case st
        from st(2) obtain ps1 r1 eln where
          w: "parseRun n env (Walk ps0 (el_stackCount el + 1) False) = Inr (ps1, r1)" and
          m: "parseRun n env (ElementLoop ps1 eln) = Inr (ps', r)"
          by (rule seq_result)
        from IH [OF w] lt have c1: "counted ?toks ps0 ps1" by (simp add: taskState_def)
        from IH [OF m] counted_bound [OF c1] have c2: "counted ?toks ps1 ps'"
          by (simp add: taskState_def)
        show ?thesis by (rule counted_trans [OF c1 c2])
      qed
      then show ?thesis using ElementLoop by (simp add: taskState_def isMain_def)
    qed
  next
    case (JsChildLoop ps0 sc nodes tok)
    let ?tok = "?toks ! p_current ps0"
    from Suc.prems(1) JsChildLoop have lt: "p_current ps0 < length ?toks"
      by (auto split: if_splits)
    from Suc.prems(1) JsChildLoop lt consider
        (st) "tok_type ?tok = E_START"
          "(let r = parseRun n env (Walk ps0 (sc + 1) False) in
             if isl r then r
             else (\<lambda>p1 r1. parseRun n env (JsChildLoop p1 sc (nodes @ [ANode (theNode r1)]) ?tok))
                    (fst (projr r)) (snd (projr r))) = Inr (ps', r)"
      | (en) "tok_type ?tok = E_CHILD_JS_END" "ps' = advance ps0"
      by (auto simp: Let_def split: if_splits)
    then have "counted ?toks ps0 ps'"
    proof cases
      case st
      from st(2) obtain ps1 r1 where
        w: "parseRun n env (Walk ps0 (sc + 1) False) = Inr (ps1, r1)" and
        m: "parseRun n env (JsChildLoop ps1 sc (nodes @ [ANode (theNode r1)]) ?tok) = Inr (ps', r)"
        by (rule seq_result)
      from IH [OF w] lt have c1: "counted ?toks ps0 ps1" by (simp add: taskState_def)
      from IH [OF m] counted_bound [OF c1] have c2: "counted ?toks ps1 ps'"
        by (simp add: taskState_def)
      show ?thesis by (rule counted_trans [OF c1 c2])
    next
      case en
      then show ?thesis using counted_step(1) [OF lt] by simp
    qed
    then show ?thesis using JsChildLoop by (simp add: taskState_def isMain_def)
  qed
qed


lemma parserMain_body:
  "parseRun n env (ParserMain ps body) = Inr (ps', r) \<Longrightarrow> \<exists>b. r = RBody b"
proof (induction n arbitrary: ps body)
  case 0
  then show ?case by simp
next
  case (Suc n)
  show ?case
  proof (cases "p_current ps < length (pe_tokens env)")
    case False
    then show ?thesis using Suc.prems by auto
  next
    case True
    with Suc.prems
    have "(let r = parseRun n env (Walk ps 0 False) in
             if isl r then r
             else (\<lambda>p1 r1. parseRun n env (ParserMain p1 (body @ [theNode r1])))
                    (fst (projr r)) (snd (projr r))) = Inr (ps', r)"
      by simp
    then obtain ps1 r1 where
      "parseRun n env (ParserMain ps1 (body @ [theNode r1])) = Inr (ps', r)"
      by (rule seq_result)
    then show ?thesis by (rule Suc.IH)
  qed
qed

lemma stampIndex_types: "map tok_type (stampIndex tokens) = map tok_type tokens"
proof -
  have "map tok_type (stampIndex tokens) = map snd (zip [0..<length tokens] (map tok_type tokens))"
    by (simp add: stampIndex_def zip_map2 case_prod_beta)
  then show ?thesis by simp
qed

lemma typeCount_all:
  "typeCount ty (stampIndex tokens) (length (stampIndex tokens)) = int (count_list (map tok_type tokens) ty)"
  by (simp add: typeCount_def stampIndex_types)

text \<open>
  C8, as amended. When the parser has consumed all the tokens (the loop of calls of \<open>walk\<close>
  has come to its end without an error), its counter of \<open>E_START\<close> tokens is the number of
  \<open>E_START\<close> tokens and its counter of \<open>E_END\<close> tokens the number of \<open>E_END\<close> tokens of the
  list, and the parser fails if and only if the two differ, with the error of unbalanced
  elements; otherwise it returns the program. The message of that error has no line and
  column. (It is not the only error of the compiler without them: the errors of the safety
  counters of the tokenizer and the parser have none either.)
\<close>

theorem parser_unbalanced:
  "parseRun (parseFuel tokens) (parserEnv opts tokens input) (ParserMain parseStart [])
     = Inr (ps, res) \<Longrightarrow>
   e_start_count ps = int (count_list (map tok_type tokens) E_START) \<and>
   e_end_count ps = int (count_list (map tok_type tokens) E_END) \<and>
   ((\<exists>e. snd (parser opts tokens input) = Inl e) \<longleftrightarrow>
      count_list (map tok_type tokens) E_START \<noteq> count_list (map tok_type tokens) E_END) \<and>
   (count_list (map tok_type tokens) E_START \<noteq> count_list (map tok_type tokens) E_END \<longrightarrow>
      snd (parser opts tokens input) = Inl unbalancedElements) \<and>
   (count_list (map tok_type tokens) E_START = count_list (map tok_type tokens) E_END \<longrightarrow>
      (\<exists>body. res = RBody body \<and> snd (parser opts tokens input) = Inr (Program body))) \<and>
   (\<exists>m. unbalancedElements = Error m \<and> \<not> sublist '' at Line #: '' m)"
proof -
  assume run: "parseRun (parseFuel tokens) (parserEnv opts tokens input) (ParserMain parseStart [])
     = Inr (ps, res)"
  let ?env = "parserEnv opts tokens input"
  have toks: "pe_tokens ?env = stampIndex tokens" by (simp add: parserEnv_def)
  from parseRun_counted [OF run]
  have c: "counted (stampIndex tokens) parseStart ps" and e: "p_current ps = length (stampIndex tokens)"
    by (simp_all add: toks taskState_def isMain_def parseStart_def)
  have s: "e_start_count ps = int (count_list (map tok_type tokens) E_START)"
    using c e typeCount_all [of E_START tokens]
    by (simp add: counted_def parseStart_def typeCount_def)
  have n: "e_end_count ps = int (count_list (map tok_type tokens) E_END)"
    using c e typeCount_all [of E_END tokens]
    by (simp add: counted_def parseStart_def typeCount_def)
  from parserMain_body [OF run] obtain body where b: "res = RBody body" by blast
  have p: "snd (parser opts tokens input) =
      (if count_list (map tok_type tokens) E_START \<noteq> count_list (map tok_type tokens) E_END
       then Inl unbalancedElements else Inr (Program body))"
    using run s n b by (simp add: parser_def parserResult_def)
  have m: "\<exists>m. unbalancedElements = Error m \<and> \<not> sublist '' at Line #: '' m"
  proof -
    have "\<not> sublist '' at Line #: '' (''The number of opening elements (for example: '' @ [CHR 0x22]
     @ ''<div>'' @ [CHR 0x22] @ '') does not match the number closing elements ('' @ [CHR 0x22]
     @ ''</div>'' @ [CHR 0x22] @ '').'')"
      by code_simp
    then show ?thesis by (simp add: unbalancedElements_def)
  qed
  show ?thesis using s n p b m by auto
qed

theorem parser_unbalanced_witness:
  "snd (parser defaultOptions [mkToken E_START ''<div>'' (Some 4)] ''<div>'') = Inl unbalancedElements \<and>
   snd (parser defaultOptions [mkToken E_START ''<a'' (Some 1), mkToken E_END ''/>'' (Some 4)] ''<a/> '')
     = Inr (Program [CreateElement ''a'' False [] [] (Some 1) 0])"
proof -
  let ?t1 = "[mkToken E_START ''<div>'' (Some 4)]"
  let ?t2 = "[mkToken E_START ''<a'' (Some 1), mkToken E_END ''/>'' (Some 4)]"
  have r1: "parseRun (parseFuel ?t1) (parserEnv defaultOptions ?t1 ''<div>'') (ParserMain parseStart [])
     = Inr (\<lparr> p_current = 1, p_callCount = 1, e_start_count = 1, e_end_count = 0 \<rparr>,
            RBody [CreateElement ''div'' False [] [] (Some 4) 0])"
    by code_simp
  have r2: "parseRun (parseFuel ?t2) (parserEnv defaultOptions ?t2 ''<a/> '') (ParserMain parseStart [])
     = Inr (\<lparr> p_current = 2, p_callCount = 1, e_start_count = 1, e_end_count = 1 \<rparr>,
            RBody [CreateElement ''a'' False [] [] (Some 1) 0])"
    by code_simp
  have d1: "count_list (map tok_type ?t1) E_START \<noteq> count_list (map tok_type ?t1) E_END"
    by (simp add: mkToken_def)
  have d2: "count_list (map tok_type ?t2) E_START = count_list (map tok_type ?t2) E_END"
    by (simp add: mkToken_def)
  from parser_unbalanced [OF r1] d1
  have a: "snd (parser defaultOptions ?t1 ''<div>'') = Inl unbalancedElements" by blast
  from parser_unbalanced [OF r2] d2
  have b: "snd (parser defaultOptions ?t2 ''<a/> '') = Inr (Program [CreateElement ''a'' False [] [] (Some 1) 0])"
    by auto
  show ?thesis using a b by blast
qed

theorem only_error_without_position_counterexample:
  "compile defaultOptions id ''<a/>'' = Inl (Error ''Endless loop encountered in tokenizer'') \<and>
   \<not> sublist '' at Line #: '' ''Endless loop encountered in tokenizer'' \<and>
   Error ''Endless loop encountered in tokenizer'' \<noteq> unbalancedElements"
  by code_simp

section \<open>Properties of the code hints\<close>

text \<open>
  What a match of the regular expression of a code hint at the start of a text is, one part
  for each part of the expression \<open>(\/\/|\/\*|\/\*\*)\s+@jsx\s+([a-zA-Z.]+)\<close>: a lead-in, white
  space, the key word, white space, and the name, which is the second group; the name is as
  long as it can be, because \<open>+\<close> is greedy.
\<close>

definition hintMatch :: "string \<Rightarrow> string \<Rightarrow> string \<Rightarrow> bool" where
  "hintMatch keyword x name =
     (\<exists>lead ws1 ws2 rest.
        x = lead @ ws1 @ keyword @ ws2 @ name @ rest \<and>
        (lead = ''//'' \<or> lead = ''/*'' \<or> lead = ''/**'') \<and>
        ws1 \<noteq> [] \<and> list_all isSpace ws1 \<and> ws2 \<noteq> [] \<and> list_all isSpace ws2 \<and>
        name \<noteq> [] \<and> list_all (\<lambda>c. isAlpha c \<or> c = CHR ''.'') name \<and>
        (rest = [] \<or> \<not> (isAlpha (hd rest) \<or> hd rest = CHR ''.'')))"

lemma isSpace_at: "\<not> isSpace (CHR ''@'')"
  by (simp add: isSpace_def)

lemma hintAfterLead_match:
  assumes ws1: "ws1 \<noteq> []" "list_all isSpace ws1"
    and ws2: "ws2 \<noteq> []" "list_all isSpace ws2"
    and name: "name \<noteq> []" "list_all (\<lambda>c. isAlpha c \<or> c = CHR ''.'') name"
    and rest: "rest = [] \<or> \<not> (isAlpha (hd rest) \<or> hd rest = CHR ''.'')"
    and kw: "keyword = ''@jsx'' \<or> keyword = ''@jsxFrag''"
  shows "hintAfterLead keyword (ws1 @ keyword @ ws2 @ name @ rest) = Some name"
proof -
  from kw obtain k where k: "keyword = CHR ''@'' # k" by auto
  have d1: "dropWhile isSpace (ws1 @ keyword @ ws2 @ name @ rest) = keyword @ ws2 @ name @ rest"
    using ws1(2) by (simp add: k dropWhile_append3 list_all_iff isSpace_at)
  have nsp: "\<not> isSpace (hd name)"
    using name by (cases name) (auto simp: isSpace_def isAlpha_def Let_def)
  have d2: "dropWhile isSpace (ws2 @ name @ rest) = name @ rest"
    using ws2(2) name(1) nsp by (cases name) (simp_all add: dropWhile_append3 list_all_iff)
  have t: "takeWhile (\<lambda>c. isAlpha c \<or> c = CHR ''.'') (name @ rest) = name"
  proof (cases rest)
    case Nil
    then show ?thesis using name(2) by (simp add: takeWhile_eq_all_conv list_all_iff)
  next
    case (Cons r rs)
    with rest have "\<not> (isAlpha r \<or> r = CHR ''.'')" by simp
    then show ?thesis
      using name(2) Cons by (simp add: takeWhile_append2 list_all_iff)
  qed
  show ?thesis
    unfolding hintAfterLead_def Let_def d1
    using ws1(1) ws2(1) name(1) by (simp add: d2 t)
qed

lemma hintAt_match:
  assumes "lead = ''//'' \<or> lead = ''/*'' \<or> lead = ''/**''"
    and "hintAfterLead keyword tail = Some name"
  shows "hintAt keyword (lead @ tail) = Some name"
proof -
  from assms(1) consider "lead = ''//''" | "lead = ''/*''" | "lead = ''/**''" by blast
  then show ?thesis
  proof cases
    case 1
    then show ?thesis using assms(2) by (simp add: hintAt_def)
  next
    case 2
    then show ?thesis using assms(2) by (simp add: hintAt_def)
  next
    case 3
    have star: "\<not> isSpace (CHR ''*'')" by (simp add: isSpace_def)
    have "hintAfterLead keyword (CHR ''*'' # tail) = None"
      by (simp add: hintAfterLead_def Let_def star)
    then show ?thesis using 3 assms(2) by (simp add: hintAt_def)
  qed
qed

lemma hintAt_Nil: "hintAt keyword [] = None"
  by (simp add: hintAt_def)

lemma hintAfterLead_sound:
  assumes "hintAfterLead keyword tail = Some name"
  shows "\<exists>ws1 ws2 rest.
        tail = ws1 @ keyword @ ws2 @ name @ rest \<and>
        ws1 \<noteq> [] \<and> list_all isSpace ws1 \<and> ws2 \<noteq> [] \<and> list_all isSpace ws2 \<and>
        name \<noteq> [] \<and> list_all (\<lambda>c. isAlpha c \<or> c = CHR ''.'') name \<and>
        (rest = [] \<or> \<not> (isAlpha (hd rest) \<or> hd rest = CHR ''.''))"
proof -
  let ?N = "\<lambda>c. isAlpha c \<or> c = CHR ''.''"
  define w1 where "w1 = takeWhile isSpace tail"
  define r1 where "r1 = dropWhile isSpace tail"
  define r2 where "r2 = drop (length keyword) r1"
  define w2 where "w2 = takeWhile isSpace r2"
  define r3 where "r3 = dropWhile isSpace r2"
  define r4 where "r4 = dropWhile ?N r3"
  from assms have a: "length r1 < length tail" and b: "take (length keyword) r1 = keyword"
    and c: "length r3 < length r2" and d: "takeWhile ?N r3 \<noteq> []"
    and n: "name = takeWhile ?N r3"
    by (auto simp: hintAfterLead_def Let_def r1_def r2_def r3_def split: if_splits)
  have t1: "tail = w1 @ r1" by (simp add: w1_def r1_def)
  have t2: "r1 = keyword @ r2"
    using append_take_drop_id [of "length keyword" r1] b by (simp add: r2_def)
  have t3: "r2 = w2 @ r3" by (simp add: w2_def r3_def)
  have t4: "r3 = name @ r4" by (simp add: n r4_def)
  have n1: "w1 \<noteq> []" using a t1 by auto
  have n2: "w2 \<noteq> []" using c t3 by auto
  have s1: "list_all isSpace w1"
    unfolding w1_def list_all_iff using set_takeWhileD by fastforce
  have s2: "list_all isSpace w2"
    unfolding w2_def list_all_iff using set_takeWhileD by fastforce
  have s3: "list_all ?N name"
    unfolding n list_all_iff using set_takeWhileD by fastforce
  have r: "r4 = [] \<or> \<not> ?N (hd r4)"
    unfolding r4_def using hd_dropWhile [of ?N r3] by blast
  have e: "tail = w1 @ keyword @ w2 @ name @ r4"
    by (simp add: t1 t2 t3 t4)
  show ?thesis
    using e n1 n2 s1 s2 s3 d n r by blast
qed

lemma hintMatchI:
  assumes "x = lead @ tail" and "lead = ''//'' \<or> lead = ''/*'' \<or> lead = ''/**''"
    and "hintAfterLead keyword tail = Some name"
  shows "hintMatch keyword x name"
proof -
  from hintAfterLead_sound [OF assms(3)] obtain ws1 ws2 rest where
    "tail = ws1 @ keyword @ ws2 @ name @ rest" "ws1 \<noteq> []" "list_all isSpace ws1"
    "ws2 \<noteq> []" "list_all isSpace ws2" "name \<noteq> []"
    "list_all (\<lambda>c. isAlpha c \<or> c = CHR ''.'') name"
    "rest = [] \<or> \<not> (isAlpha (hd rest) \<or> hd rest = CHR ''.'')"
    by blast
  then show ?thesis
    unfolding hintMatch_def using assms(1,2)
    by (intro exI [of _ lead] exI [of _ ws1] exI [of _ ws2] exI [of _ rest]) simp
qed

lemma hintAt_sound:
  assumes "hintAt keyword x = Some name"
  shows "hintMatch keyword x name"
proof -
  from assms consider
      (a) "take 2 x = ''//''" "hintAfterLead keyword (drop 2 x) = Some name"
    | (b) "take 2 x = ''/*''" "hintAfterLead keyword (drop 2 x) = Some name"
    | (c) "take 3 x = ''/**''" "hintAfterLead keyword (drop 3 x) = Some name"
    by (auto simp: hintAt_def split: if_splits)
  then show ?thesis
  proof cases
    case a
    have x: "x = ''//'' @ drop 2 x" using append_take_drop_id [of 2 x] a(1) by simp
    show ?thesis by (rule hintMatchI [OF x _ a(2)]) simp
  next
    case b
    have x: "x = ''/*'' @ drop 2 x" using append_take_drop_id [of 2 x] b(1) by simp
    show ?thesis by (rule hintMatchI [OF x _ b(2)]) simp
  next
    case c
    have x: "x = ''/**'' @ drop 3 x" using append_take_drop_id [of 3 x] c(1) by simp
    show ?thesis by (rule hintMatchI [OF x _ c(2)]) simp
  qed
qed

lemma hintAt_complete:
  assumes "keyword = ''@jsx'' \<or> keyword = ''@jsxFrag''" and "hintMatch keyword x name"
  shows "hintAt keyword x = Some name"
proof -
  from assms(2) obtain lead ws1 ws2 rest where
    x: "x = lead @ ws1 @ keyword @ ws2 @ name @ rest" and
    l: "lead = ''//'' \<or> lead = ''/*'' \<or> lead = ''/**''" and
    w: "ws1 \<noteq> []" "list_all isSpace ws1" "ws2 \<noteq> []" "list_all isSpace ws2" and
    n: "name \<noteq> []" "list_all (\<lambda>c. isAlpha c \<or> c = CHR ''.'') name" and
    r: "rest = [] \<or> \<not> (isAlpha (hd rest) \<or> hd rest = CHR ''.'')"
    unfolding hintMatch_def by blast
  have "hintAfterLead keyword (ws1 @ keyword @ ws2 @ name @ rest) = Some name"
    by (rule hintAfterLead_match [OF w n r assms(1)])
  then show ?thesis unfolding x by (rule hintAt_match [OF l])
qed

lemma hintAt_iff:
  "keyword = ''@jsx'' \<or> keyword = ''@jsxFrag'' \<Longrightarrow>
   hintAt keyword x = Some name \<longleftrightarrow> hintMatch keyword x name"
  using hintAt_sound hintAt_complete by blast

lemma codeHint_first:
  "codeHint keyword s = Some name \<longleftrightarrow>
   (\<exists>i. hintAt keyword (drop i s) = Some name \<and> (\<forall>j<i. hintAt keyword (drop j s) = None))"
proof (induction s)
  case Nil
  show ?case by (simp add: hintAt_Nil)
next
  case (Cons c cs)
  show ?case
  proof (cases "hintAt keyword (c # cs)")
    case (Some m)
    have "(\<exists>i. hintAt keyword (drop i (c # cs)) = Some name \<and>
               (\<forall>j<i. hintAt keyword (drop j (c # cs)) = None)) \<longleftrightarrow> m = name"
    proof
      assume "\<exists>i. hintAt keyword (drop i (c # cs)) = Some name \<and>
               (\<forall>j<i. hintAt keyword (drop j (c # cs)) = None)"
      then obtain i where i: "hintAt keyword (drop i (c # cs)) = Some name"
        and m: "\<forall>j<i. hintAt keyword (drop j (c # cs)) = None" by blast
      have "i = 0"
      proof (rule ccontr)
        assume "i \<noteq> 0"
        then have "hintAt keyword (drop 0 (c # cs)) = None" using m by blast
        then show False using Some by simp
      qed
      then show "m = name" using i Some by simp
    next
      assume "m = name"
      then have "hintAt keyword (drop 0 (c # cs)) = Some name" using Some by simp
      then show "\<exists>i. hintAt keyword (drop i (c # cs)) = Some name \<and>
               (\<forall>j<i. hintAt keyword (drop j (c # cs)) = None)"
        by (intro exI [of _ 0]) simp
    qed
    then show ?thesis using Some by simp
  next
    case None
    have "(\<exists>i. hintAt keyword (drop i (c # cs)) = Some name \<and>
               (\<forall>j<i. hintAt keyword (drop j (c # cs)) = None)) \<longleftrightarrow>
          (\<exists>i. hintAt keyword (drop i cs) = Some name \<and>
               (\<forall>j<i. hintAt keyword (drop j cs) = None))"
    proof
      assume "\<exists>i. hintAt keyword (drop i (c # cs)) = Some name \<and>
               (\<forall>j<i. hintAt keyword (drop j (c # cs)) = None)"
      then obtain i where i: "hintAt keyword (drop i (c # cs)) = Some name"
        and m: "\<forall>j<i. hintAt keyword (drop j (c # cs)) = None" by blast
      from i None obtain k where k: "i = Suc k" by (cases i) auto
      have "hintAt keyword (drop k cs) = Some name" using i k by simp
      moreover have "\<forall>j<k. hintAt keyword (drop j cs) = None"
      proof (intro allI impI)
        fix j assume "j < k"
        then have "hintAt keyword (drop (Suc j) (c # cs)) = None" using m k by blast
        then show "hintAt keyword (drop j cs) = None" by simp
      qed
      ultimately show "\<exists>i. hintAt keyword (drop i cs) = Some name \<and>
               (\<forall>j<i. hintAt keyword (drop j cs) = None)" by blast
    next
      assume "\<exists>i. hintAt keyword (drop i cs) = Some name \<and>
               (\<forall>j<i. hintAt keyword (drop j cs) = None)"
      then obtain k where k: "hintAt keyword (drop k cs) = Some name"
        and m: "\<forall>j<k. hintAt keyword (drop j cs) = None" by blast
      have "hintAt keyword (drop (Suc k) (c # cs)) = Some name" using k by simp
      moreover have "\<forall>j<Suc k. hintAt keyword (drop j (c # cs)) = None"
      proof (intro allI impI)
        fix j assume j: "j < Suc k"
        show "hintAt keyword (drop j (c # cs)) = None"
        proof (cases j)
          case 0
          then show ?thesis using None by simp
        next
          case (Suc l)
          then show ?thesis using m j by simp
        qed
      qed
      ultimately show "\<exists>i. hintAt keyword (drop i (c # cs)) = Some name \<and>
               (\<forall>j<i. hintAt keyword (drop j (c # cs)) = None)" by blast
    qed
    then show ?thesis using None Cons.IH by simp
  qed
qed

lemma codeHint_first_match:
  assumes "keyword = ''@jsx'' \<or> keyword = ''@jsxFrag''"
  shows "codeHint keyword s = Some name \<longleftrightarrow>
   (\<exists>i. hintMatch keyword (drop i s) name \<and> (\<forall>j<i. \<forall>n. \<not> hintMatch keyword (drop j s) n))"
proof -
  have n: "hintAt keyword x = None \<longleftrightarrow> (\<forall>n. \<not> hintMatch keyword x n)" for x
    using hintAt_iff [OF assms, of x] by (cases "hintAt keyword x") auto
  show ?thesis
    unfolding codeHint_first hintAt_iff [OF assms] n ..
qed

lemma codeHint_no_match:
  assumes "keyword = ''@jsx'' \<or> keyword = ''@jsxFrag''"
  shows "codeHint keyword s = None \<longleftrightarrow> (\<forall>i n. \<not> hintMatch keyword (drop i s) n)"
proof
  assume a: "codeHint keyword s = None"
  show "\<forall>i n. \<not> hintMatch keyword (drop i s) n"
  proof (intro allI notI)
    fix i n assume h: "hintMatch keyword (drop i s) n"
    define P where "P k = (\<exists>m. hintMatch keyword (drop k s) m)" for k
    have "P i" using h P_def by blast
    then have l: "P (LEAST k. P k)" by (rule LeastI)
    have m: "\<And>j. j < (LEAST k. P k) \<Longrightarrow> \<not> P j" by (rule not_less_Least)
    from l obtain m' where "hintMatch keyword (drop (LEAST k. P k) s) m'" unfolding P_def by blast
    with m have "codeHint keyword s = Some m'"
      unfolding codeHint_first_match [OF assms] P_def by blast
    with a show False by simp
  qed
next
  assume "\<forall>i n. \<not> hintMatch keyword (drop i s) n"
  then have "\<And>name. codeHint keyword s \<noteq> Some name"
    unfolding codeHint_first_match [OF assms] by blast
  then show "codeHint keyword s = None" by (cases "codeHint keyword s") auto
qed


lemma generate_element_head:
  assumes "generateCode env (CreateElement nm cls props ch pos sc) skip = Inr out"
  shows "\<exists>ind rest. out = ind @ g_createElement env @ ''('' @ rest \<and>
           set ind \<subseteq> {CHR '' '', CHR 0x0A}"
proof -
  let ?ind = "if sc > 0 then (if \<not> skip then [CHR 0x0A] @ spaces 8 @ spaces (sc * 4) else '' '')
              else []"
  have h: "elementHead env nm cls sc skip =
      ?ind @ g_createElement env @ ''('' @ (if cls then nm else jsonStringify nm) @ '', ''"
    by (simp add: elementHead_def Let_def)
  have i: "set ?ind \<subseteq> {CHR '' '', CHR 0x0A}" by (auto simp: spaces_def)
  from assms obtain pj cj where
    "out = elementHead env nm cls sc skip @ pj @ childrenCode env ch cj @ '')''"
    by (auto simp: Let_def elementCode_def split: if_splits)
  then have "out = ?ind @ g_createElement env @ ''(''
      @ ((if cls then nm else jsonStringify nm) @ '', '' @ pj @ childrenCode env ch cj @ '')'')"
    unfolding h by simp
  with i show ?thesis by blast
qed

lemma walk_fragment:
  assumes "p_callCount ps + 1 \<le> pe_maxRecursiveCalls env"
    and "p_current ps < length (pe_tokens env)"
    and "tok_type (pe_tokens env ! p_current ps) = E_START"
    and "tagName (tok_value (pe_tokens env ! p_current ps)) = []"
  shows "parseRun (Suc n) env (Walk ps sc sj) =
     parseRun n env
       (ElementLoop ((advance (ps\<lparr>p_callCount := p_callCount ps + 1\<rparr>))
                       \<lparr>e_start_count := e_start_count ps + 1\<rparr>)
          \<lparr> el_name = pe_pragmaFrag env, el_isClass = isClassName (pe_pragmaFrag env),
            el_props = [], el_children = [], el_pos = tok_pos (pe_tokens env ! p_current ps),
            el_stackCount = sc, el_value = None \<rparr>)"
  using assms by (simp add: Let_def advance_def)

lemma compile_unfold:
  "compile opts d input =
     (let toks = tokenizer (maxRecursiveCalls opts) (removeComments input) in
      if isl toks then Inl (projl toks)
      else
        (let ast = parserResult
               (parseRun (parseFuel (projr toks))
                  \<lparr> pe_tokens = stampIndex (projr toks), pe_input = input,
                    pe_maxRecursiveCalls = maxRecursiveCalls opts,
                    pe_pragmaFrag = (case codeHint ''@jsxFrag'' input of
                                       None \<Rightarrow> pragmaFrag opts | Some n \<Rightarrow> n) \<rparr>
                  (ParserMain parseStart []))
         in if isl ast then Inl (projl ast)
            else generateCode
                   \<lparr> g_createElement = (case codeHint ''@jsx'' input of
                                          None \<Rightarrow> pragma opts | Some n \<Rightarrow> n),
                     g_addUseStrict = addUseStrict opts, g_decodeHtml = d \<rparr>
                   (projr ast) False))"
  by (simp add: compile_def parser_def parserEnv_def codeGenerator_def generatorEnv_def Let_def)

lemma parserEnv_pragma:
  "parserEnv (opts\<lparr>pragma := p\<rparr>) toks input = parserEnv opts toks input"
  by (cases "codeHint ''@jsxFrag'' input") (simp_all add: parserEnv_def)

lemma generatorEnv_pragmaFrag:
  "generatorEnv (opts\<lparr>pragmaFrag := f\<rparr>) d input = generatorEnv opts d input"
  by (cases "codeHint ''@jsx'' input") (simp_all add: generatorEnv_def)

lemma generatorEnv_hint:
  "codeHint ''@jsx'' input \<noteq> None \<Longrightarrow>
   generatorEnv (opts\<lparr>pragma := p\<rparr>) d input = generatorEnv opts d input"
  by (cases "codeHint ''@jsx'' input") (simp_all add: generatorEnv_def)

lemma parserEnv_hint:
  "codeHint ''@jsxFrag'' input \<noteq> None \<Longrightarrow>
   parserEnv (opts\<lparr>pragmaFrag := f\<rparr>) toks input = parserEnv opts toks input"
  by (cases "codeHint ''@jsxFrag'' input") (simp_all add: parserEnv_def)

lemma compile_override:
  "codeHint ''@jsx'' input \<noteq> None \<Longrightarrow> compile (opts\<lparr>pragma := p\<rparr>) d input = compile opts d input"
  "codeHint ''@jsxFrag'' input \<noteq> None \<Longrightarrow>
   compile (opts\<lparr>pragmaFrag := f\<rparr>) d input = compile opts d input"
proof -
  show "compile (opts\<lparr>pragma := p\<rparr>) d input = compile opts d input"
    if "codeHint ''@jsx'' input \<noteq> None"
    unfolding compile_def parser_def codeGenerator_def parserEnv_pragma
      generatorEnv_hint [OF that]
    by simp
  show "compile (opts\<lparr>pragmaFrag := f\<rparr>) d input = compile opts d input"
    if "codeHint ''@jsxFrag'' input \<noteq> None"
    unfolding compile_def parser_def codeGenerator_def generatorEnv_pragmaFrag
      parserEnv_hint [OF that]
    by simp
qed

text \<open>
  Claim C9. For every input, the code hint that \<open>parser\<close> and \<open>codeGenerator\<close> read is the
  second group of the first match of the regular expression anywhere in the text they are
  given: there is an offset at which the text matches (a lead-in \<open>//\<close>, \<open>/*\<close> or \<open>/**\<close>, white
  space, the key word, white space, and the longest name of letters and dots), and it matches
  at no smaller offset; there is no hint exactly when the text matches at no offset. Nothing
  else is asked of the text around the match, so the match may lie in a string literal.
  \<open>compile\<close> gives the tokenizer the text without its comments but gives the parser and the
  code generator the raw input, so the fragment pragma of the parser and the pragma of the
  code generator are the hint of the raw input, or the option when it has none; a hint makes
  the option irrelevant. The code generator writes every element as a call of that pragma,
  and the parser names every element whose opening tag has no name after that fragment pragma.
\<close>

theorem code_hint_textual:
  assumes "keyword = ''@jsx'' \<or> keyword = ''@jsxFrag''"
  shows
   "(codeHint keyword input = Some name \<longleftrightarrow>
       (\<exists>i. hintMatch keyword (drop i input) name \<and>
            (\<forall>j<i. \<forall>n. \<not> hintMatch keyword (drop j input) n))) \<and>
    (codeHint keyword input = None \<longleftrightarrow> (\<forall>i n. \<not> hintMatch keyword (drop i input) n)) \<and>
    compile opts d input =
      (let toks = tokenizer (maxRecursiveCalls opts) (removeComments input) in
       if isl toks then Inl (projl toks)
       else
         (let ast = parserResult
                (parseRun (parseFuel (projr toks))
                   \<lparr> pe_tokens = stampIndex (projr toks), pe_input = input,
                     pe_maxRecursiveCalls = maxRecursiveCalls opts,
                     pe_pragmaFrag = (case codeHint ''@jsxFrag'' input of
                                        None \<Rightarrow> pragmaFrag opts | Some n \<Rightarrow> n) \<rparr>
                   (ParserMain parseStart []))
          in if isl ast then Inl (projl ast)
             else generateCode
                    \<lparr> g_createElement = (case codeHint ''@jsx'' input of
                                           None \<Rightarrow> pragma opts | Some n \<Rightarrow> n),
                      g_addUseStrict = addUseStrict opts, g_decodeHtml = d \<rparr>
                    (projr ast) False)) \<and>
    (codeHint ''@jsx'' input \<noteq> None \<longrightarrow>
       compile (opts\<lparr>pragma := p\<rparr>) d input = compile opts d input) \<and>
    (codeHint ''@jsxFrag'' input \<noteq> None \<longrightarrow>
       compile (opts\<lparr>pragmaFrag := f\<rparr>) d input = compile opts d input) \<and>
    (generateCode env (CreateElement nm cls props ch pos sc) skip = Inr out \<longrightarrow>
       (\<exists>ind rest. out = ind @ g_createElement env @ ''('' @ rest \<and>
          set ind \<subseteq> {CHR '' '', CHR 0x0A})) \<and>
    (p_callCount ps + 1 \<le> pe_maxRecursiveCalls penv \<and> p_current ps < length (pe_tokens penv) \<and>
     tok_type (pe_tokens penv ! p_current ps) = E_START \<and>
     tagName (tok_value (pe_tokens penv ! p_current ps)) = [] \<longrightarrow>
       parseRun (Suc k) penv (Walk ps stackCount sj) =
         parseRun k penv
           (ElementLoop ((advance (ps\<lparr>p_callCount := p_callCount ps + 1\<rparr>))
                           \<lparr>e_start_count := e_start_count ps + 1\<rparr>)
              \<lparr> el_name = pe_pragmaFrag penv, el_isClass = isClassName (pe_pragmaFrag penv),
                el_props = [], el_children = [],
                el_pos = tok_pos (pe_tokens penv ! p_current ps),
                el_stackCount = stackCount, el_value = None \<rparr>))"
proof (intro conjI impI)
  show "codeHint keyword input = Some name \<longleftrightarrow>
       (\<exists>i. hintMatch keyword (drop i input) name \<and>
            (\<forall>j<i. \<forall>n. \<not> hintMatch keyword (drop j input) n))"
    by (rule codeHint_first_match [OF assms])
  show "codeHint keyword input = None \<longleftrightarrow> (\<forall>i n. \<not> hintMatch keyword (drop i input) n)"
    by (rule codeHint_no_match [OF assms])
  show "compile (opts\<lparr>pragma := p\<rparr>) d input = compile opts d input"
    if "codeHint ''@jsx'' input \<noteq> None"
    using that by (rule compile_override)
  show "compile (opts\<lparr>pragmaFrag := f\<rparr>) d input = compile opts d input"
    if "codeHint ''@jsxFrag'' input \<noteq> None"
    using that by (rule compile_override)
  show "\<exists>ind rest. out = ind @ g_createElement env @ ''('' @ rest \<and>
          set ind \<subseteq> {CHR '' '', CHR 0x0A}"
    if "generateCode env (CreateElement nm cls props ch pos sc) skip = Inr out"
    using that by (rule generate_element_head)
  show "parseRun (Suc k) penv (Walk ps stackCount sj) =
         parseRun k penv
           (ElementLoop ((advance (ps\<lparr>p_callCount := p_callCount ps + 1\<rparr>))
                           \<lparr>e_start_count := e_start_count ps + 1\<rparr>)
              \<lparr> el_name = pe_pragmaFrag penv, el_isClass = isClassName (pe_pragmaFrag penv),
                el_props = [], el_children = [],
                el_pos = tok_pos (pe_tokens penv ! p_current ps),
                el_stackCount = stackCount, el_value = None \<rparr>)"
    if "p_callCount ps + 1 \<le> pe_maxRecursiveCalls penv \<and> p_current ps < length (pe_tokens penv) \<and>
     tok_type (pe_tokens penv ! p_current ps) = E_START \<and>
     tagName (tok_value (pe_tokens penv ! p_current ps)) = []"
    using that walk_fragment by blast
qed (rule compile_unfold)


theorem code_hint_textual_witness:
  "(\<exists>i. hintMatch ''@jsx''
         (drop i (''a = 1 / 2; s = '' @ [CHR 0x22] @ ''// @jsx h'' @ [CHR 0x22]
                  @ ''; /* @jsxFrag F.G */ x = <><X></X></>;'')) ''h'') \<and>
   compile defaultOptions id
     (''a = 1 / 2; s = '' @ [CHR 0x22] @ ''// @jsx h'' @ [CHR 0x22]
      @ ''; /* @jsxFrag F.G */ x = <><X></X></>;'')
     = Inr (useStrictPrefix @ ''a = 1 / 2; s = '' @ [CHR 0x22] @ ''// @jsx h'' @ [CHR 0x22]
            @ '';'' @ replicate 20 (CHR '' '') @ ''x = h(F.G, null, '' @ [CHR 0x0A]
            @ replicate 12 (CHR '' '') @ ''h(X, null));'') \<and>
   compile (defaultOptions\<lparr>pragma := ''q''\<rparr>) id
     (''a = 1 / 2; s = '' @ [CHR 0x22] @ ''// @jsx h'' @ [CHR 0x22]
      @ ''; /* @jsxFrag F.G */ x = <><X></X></>;'')
     = compile defaultOptions id
     (''a = 1 / 2; s = '' @ [CHR 0x22] @ ''// @jsx h'' @ [CHR 0x22]
      @ ''; /* @jsxFrag F.G */ x = <><X></X></>;'')"
proof -
  let ?inp = "''a = 1 / 2; s = '' @ [CHR 0x22] @ ''// @jsx h'' @ [CHR 0x22]
      @ ''; /* @jsxFrag F.G */ x = <><X></X></>;''"
  let ?out = "useStrictPrefix @ ''a = 1 / 2; s = '' @ [CHR 0x22] @ ''// @jsx h'' @ [CHR 0x22]
            @ '';'' @ replicate 20 (CHR '' '') @ ''x = h(F.G, null, '' @ [CHR 0x0A]
            @ replicate 12 (CHR '' '') @ ''h(X, null));''"
  have k: "''@jsx'' = ''@jsx'' \<or> ''@jsx'' = ''@jsxFrag''" by simp
  have h: "codeHint ''@jsx'' ?inp = Some ''h''" by code_simp
  have r: "(let toks = tokenizer (maxRecursiveCalls defaultOptions) (removeComments ?inp) in
       if isl toks then Inl (projl toks)
       else
         (let ast = parserResult
                (parseRun (parseFuel (projr toks))
                   \<lparr> pe_tokens = stampIndex (projr toks), pe_input = ?inp,
                     pe_maxRecursiveCalls = maxRecursiveCalls defaultOptions,
                     pe_pragmaFrag = (case codeHint ''@jsxFrag'' ?inp of
                                        None \<Rightarrow> pragmaFrag defaultOptions | Some n \<Rightarrow> n) \<rparr>
                   (ParserMain parseStart []))
          in if isl ast then Inl (projl ast)
             else generateCode
                    \<lparr> g_createElement = (case codeHint ''@jsx'' ?inp of
                                           None \<Rightarrow> pragma defaultOptions | Some n \<Rightarrow> n),
                      g_addUseStrict = addUseStrict defaultOptions, g_decodeHtml = id \<rparr>
                    (projr ast) False)) = Inr ?out"
    by code_simp
  note t = code_hint_textual [OF k, of ?inp "''h''" defaultOptions id "''q''"]
  from t [THEN conjunct1] h have a: "\<exists>i. hintMatch ''@jsx'' (drop i ?inp) ''h''" by blast
  from t [THEN conjunct2, THEN conjunct2, THEN conjunct1]
  have "compile defaultOptions id ?inp = (let toks = tokenizer (maxRecursiveCalls defaultOptions) (removeComments ?inp) in
       if isl toks then Inl (projl toks)
       else
         (let ast = parserResult
                (parseRun (parseFuel (projr toks))
                   \<lparr> pe_tokens = stampIndex (projr toks), pe_input = ?inp,
                     pe_maxRecursiveCalls = maxRecursiveCalls defaultOptions,
                     pe_pragmaFrag = (case codeHint ''@jsxFrag'' ?inp of
                                        None \<Rightarrow> pragmaFrag defaultOptions | Some n \<Rightarrow> n) \<rparr>
                   (ParserMain parseStart []))
          in if isl ast then Inl (projl ast)
             else generateCode
                    \<lparr> g_createElement = (case codeHint ''@jsx'' ?inp of
                                           None \<Rightarrow> pragma defaultOptions | Some n \<Rightarrow> n),
                      g_addUseStrict = addUseStrict defaultOptions, g_decodeHtml = id \<rparr>
                    (projr ast) False))" .
  then have b: "compile defaultOptions id ?inp = Inr ?out" unfolding r .
  from t [THEN conjunct2, THEN conjunct2, THEN conjunct2, THEN conjunct1] h
  have c: "compile (defaultOptions\<lparr>pragma := ''q''\<rparr>) id ?inp = compile defaultOptions id ?inp"
    by simp
  show ?thesis using a b c by (intro conjI)
qed

section \<open>Properties of the positions of tokens\<close>

text \<open>Every token has a position.\<close>

definition positioned :: "lexer \<Rightarrow> bool" where
  "positioned g = list_all (\<lambda>t. tok_pos t \<noteq> None) (t_tokens g)"

text \<open>
  What holds when the \<open>switch\<close> after the attribute loop is reached: \<open>char\<close> is the character
  at \<open>current\<close>, or \<open>current\<close> is past the end, or \<open>char\<close> is not a slash; so the branch that
  asks for a slash in \<open>char\<close> and \<open>&gt;\<close> at \<open>current\<close> is never taken.
\<close>

definition slashHere :: "string \<Rightarrow> lexer \<Rightarrow> bool" where
  "slashHere input g = (t_char g = ''/'' \<longrightarrow> peekCurrent input g \<noteq> Some (CHR ''>''))"



lemma positioned_push [simp]:
  "positioned (pushToken g ty v (Some p)) = positioned g"
  by (simp add: positioned_def pushToken_def mkToken_def)

lemma positioned_upd [simp]:
  "positioned (g\<lparr>t_current := c\<rparr>) = positioned g"
  "positioned (g\<lparr>t_char := ch\<rparr>) = positioned g"
  by (simp_all add: positioned_def)

lemma addElementEnd_pop [simp]: "addElementEnd (popElement st) = addElementEnd st"
  by (simp add: popElement_def Let_def)

lemma addElementEnd_push [simp]: "addElementEnd (pushElement st) = addElementEnd st"
  by (simp add: pushElement_def)

lemma addElementEnd_ces [simp]: "addElementEnd (cesUpdate f st) = addElementEnd st"
  by (simp add: cesUpdate_def split: option.splits)

lemma breakLoop_ces [simp]: "breakLoop (cesUpdate f st) = breakLoop st"
  by (simp add: cesUpdate_def split: option.splits)

lemma slashHere_push [simp]: "slashHere input (pushToken g ty v p) = slashHere input g"
  by (simp add: slashHere_def pushToken_def peekCurrent_def)













lemma readChar_facts [simp]:
  "positioned (readChar input g) = positioned g"
  "t_char (readChar input g) = [input ! nat (t_current g)]"
  by (simp_all add: readChar_def)

















end
